theory Spec2Isabelle
  imports Complex_Main "HOL-Library.Char_ord" "HOL-Library.List_Lexorder"
begin


section \<open>Python values and errors\<close>

text \<open>
  Every exception the modelled code can raise is a constructor of \<open>error\<close>; a
  function that may raise returns \<open>error + 'a\<close>, with \<open>Inl\<close> for the exception.
  \<open>SystemExit\<close> is \<^verbatim>\<open>sys.exit(1)\<close>; \<open>CvError\<close> is OpenCV's \<^verbatim>\<open>cv2.error\<close>;
  \<open>ParserError\<close> stands for the errors of \<^verbatim>\<open>pandas.read_csv\<close> on a file it cannot parse.
  Floating-point numbers are modelled as \<open>real\<close>; a coordinate of a box, which comes
  out of a cell of the annotation file, may also be NaN or infinite.
\<close>

datatype error =
    FileNotFoundError | ParserError | KeyError | ValueError | IndexError
  | AttributeError | ZeroDivisionError | NameError | CvError | SystemExit
  | CheckpointError

text \<open>Python's list indexing \<^verbatim>\<open>xs[i]\<close> on a list of length \<open>n\<close>: a negative index
  counts from the end, anything outside \<open>[-n, n)\<close> raises \<^verbatim>\<open>IndexError\<close>.\<close>

definition py_index :: "nat \<Rightarrow> int \<Rightarrow> error + nat" where
  "py_index n i =
     (if 0 \<le> i \<and> i < int n then Inr (nat i)
      else if - int n \<le> i \<and> i < 0 then Inr (nat (int n + i))
      else Inl IndexError)"

text \<open>Python's \<^verbatim>\<open>min\<close> of a sequence raises \<^verbatim>\<open>ValueError\<close> on an empty one.\<close>

definition py_min :: "nat list \<Rightarrow> error + nat" where
  "py_min xs = (case xs of [] \<Rightarrow> Inl ValueError | y # ys \<Rightarrow> Inr (fold min ys y))"

section \<open>The Open Images dataset (\<^verbatim>\<open>vision/datasets/open_images.py\<close>)\<close>

subsection \<open>Data model\<close>

datatype float32 = Float real | NaN | PosInf | NegInf

type_synonym box = "float32 \<times> float32 \<times> float32 \<times> float32"

text \<open>One element of \<^verbatim>\<open>self.data\<close>: the dictionary with the keys
  \<^verbatim>\<open>image_id\<close>, \<^verbatim>\<open>boxes\<close> and \<^verbatim>\<open>labels\<close>.\<close>

record image_info =
  image_id :: string
  boxes :: "box list"
  labels :: "int list"

subsection \<open>\<^verbatim>\<open>_balance_data\<close>\<close>

text \<open>
  A Python \<^verbatim>\<open>set\<close> of image indexes is a \<open>nat set\<close>; \<^verbatim>\<open>len(s)\<close> is \<open>card s\<close>.
  CPython iterates a set of integers in hash-table order, which the language leaves
  open; the model enumerates a set in ascending order (\<open>sorted_list_of_set\<close>). Sizes
  and membership, which is all the properties below speak about, do not depend on
  that order.

  \<^verbatim>\<open>label_image_indexes[label_id].add(i)\<close> for every label of image \<open>i\<close>.
\<close>

fun add_labels :: "nat \<Rightarrow> int list \<Rightarrow> nat set list \<Rightarrow> error + nat set list" where
  "add_labels i [] lii = Inr lii"
| "add_labels i (label_id # ls) lii =
     (case py_index (length lii) label_id of
        Inl e \<Rightarrow> Inl e
      | Inr k \<Rightarrow> add_labels i ls (lii[k := insert i (lii ! k)]))"

text \<open>\<^verbatim>\<open>for i, image in enumerate(self.data)\<close>, started at index \<open>i\<close>.\<close>

fun index_images :: "nat \<Rightarrow> image_info list \<Rightarrow> nat set list \<Rightarrow> error + nat set list" where
  "index_images i [] lii = Inr lii"
| "index_images i (img # rest) lii =
     (case add_labels i (labels img) lii of
        Inl e \<Rightarrow> Inl e
      | Inr lii' \<Rightarrow> index_images (Suc i) rest lii')"

text \<open>
  The state of NumPy's global generator is an endless supply of raw draws
  \<open>g 0, g 1, \<dots>\<close>. \<^verbatim>\<open>np.random.choice(a, size)\<close> with an integer \<open>a\<close> returns \<open>sz\<close>
  numbers below \<open>a\<close> (each raw draw reduced modulo \<open>a\<close>, so every outcome is possible
  and none is out of range) and advances the generator. As NumPy (1.16 and later) does,
  it raises \<^verbatim>\<open>ValueError\<close> when \<open>a\<close> is 0 unless no sample is taken.
\<close>

type_synonym rng = "nat \<Rightarrow> nat"

definition random_choice :: "rng \<Rightarrow> nat \<Rightarrow> nat \<Rightarrow> error + (nat list \<times> rng)" where
  "random_choice g a sz =
     (if a = 0 \<and> sz \<noteq> 0 then Inl ValueError
      else Inr (map (\<lambda>j. g j mod a) [0..<sz], \<lambda>j. g (j + sz)))"

text \<open>\<^verbatim>\<open>for image_indexes in label_image_indexes[1:]\<close>: draw \<open>min_image_num\<close>
  positions of the class's index list and add the images there to the sample.\<close>

fun sample_classes :: "rng \<Rightarrow> nat \<Rightarrow> nat set list \<Rightarrow> nat set \<Rightarrow> error + (nat set \<times> rng)" where
  "sample_classes g min_image_num [] sample_image_indexes = Inr (sample_image_indexes, g)"
| "sample_classes g min_image_num (s # rest) sample_image_indexes =
     (let image_indexes = sorted_list_of_set s in
      case random_choice g (length image_indexes) min_image_num of
        Inl e \<Rightarrow> Inl e
      | Inr (choice, g') \<Rightarrow>
          sample_classes g' min_image_num rest
            (fold (\<lambda>i acc. insert (image_indexes ! i) acc) choice sample_image_indexes))"

text \<open>The method returns the sampled images and stores \<^verbatim>\<open>self.min_image_num\<close>; the
  model returns both, and the generator as the draws leave it. Of \<^verbatim>\<open>self.class_names\<close>
  the method reads the length only, so the type of a class name is left open here.\<close>

definition balance_data ::
  "rng \<Rightarrow> image_info list \<Rightarrow> 'c list \<Rightarrow> error + (image_info list \<times> nat \<times> rng)" where
  "balance_data g data class_names =
     (case index_images 0 data (replicate (length class_names + 1) {}) of
        Inl e \<Rightarrow> Inl e
      | Inr label_image_indexes \<Rightarrow>
          let label_stat = map card label_image_indexes in
          (case py_min (tl label_stat) of
             Inl e \<Rightarrow> Inl e
           | Inr min_image_num \<Rightarrow>
               (case sample_classes g min_image_num (tl label_image_indexes) {} of
                  Inl e \<Rightarrow> Inl e
                | Inr (sample_image_indexes, g') \<Rightarrow>
                    Inr (map (\<lambda>i. data ! i) (sorted_list_of_set sample_image_indexes),
                         min_image_num, g'))))"

text \<open>The words of the specification: the images that contain at least one box of a
  class, and how many there are.\<close>

definition images_with_class :: "image_info list \<Rightarrow> int \<Rightarrow> image_info list" where
  "images_with_class data c = filter (\<lambda>img. c \<in> set (labels img)) data"

definition class_image_count :: "image_info list \<Rightarrow> int \<Rightarrow> nat" where
  "class_image_count data c = length (images_with_class data c)"

text \<open>The labels \<open>1..N\<close> of a vocabulary of \<open>N\<close> class names.\<close>

definition class_labels :: "'c list \<Rightarrow> int list" where
  "class_labels class_names = map int [1..<length class_names + 1]"

definition labels_in_vocabulary :: "image_info list \<Rightarrow> 'c list \<Rightarrow> bool" where
  "labels_in_vocabulary data class_names =
     list_all (\<lambda>img. list_all (\<lambda>l. 1 \<le> l \<and> l \<le> int (length class_names)) (labels img)) data"

definition min_count :: "image_info list \<Rightarrow> 'c list \<Rightarrow> nat" where
  "min_count data class_names =
     min_list (map (class_image_count data) (class_labels class_names))"

text \<open>What the dataset keeps of a call of \<^verbatim>\<open>_balance_data\<close>: the new \<^verbatim>\<open>self.data\<close> and
  \<^verbatim>\<open>self.min_image_num\<close>.\<close>

definition balanced :: "error + (image_info list \<times> nat \<times> rng) \<Rightarrow> error + (image_info list \<times> nat)" where
  "balanced r = (case r of Inl e \<Rightarrow> Inl e | Inr (sample_data, min_image_num, g') \<Rightarrow> Inr (sample_data, min_image_num))"

subsection \<open>\<^verbatim>\<open>_read_data\<close>\<close>








text \<open>\<^verbatim>\<open>{class_name: i + 1 for i, class_name in enumerate(class_names)}\<close>\<close>

definition make_class_dict :: "'c list \<Rightarrow> ('c \<rightharpoonup> int)" where
  "make_class_dict class_names = map_of (zip class_names (map int [1..<length class_names + 1]))"









subsection \<open>\<^verbatim>\<open>_read_image\<close> and \<^verbatim>\<open>__getitem__\<close>\<close>

text \<open>
  An image array is known by its shape and by the order of its colour planes; the
  pixels are not modelled. \<^verbatim>\<open>cv2.imread\<close> does not raise: it returns \<^verbatim>\<open>None\<close> for a file
  that is missing or that it cannot decode, so the decoder is a function into
  \<open>ndarray option\<close>. \<^verbatim>\<open>cv2.cvtColor\<close> rejects an array whose number of channels does
  not fit the conversion.
\<close>

datatype colour = GRAY | BGR | RGB

record ndarray =
  shape :: "nat list"
  planes :: colour

datatype colour_code = COLOR_GRAY2RGB | COLOR_BGR2RGB

fun cvtColor :: "ndarray \<Rightarrow> colour_code \<Rightarrow> error + ndarray" where
  "cvtColor a COLOR_GRAY2RGB =
     (case shape a of
        [h, w] \<Rightarrow> Inr \<lparr>shape = [h, w, 3], planes = RGB\<rparr>
      | [h, w, c] \<Rightarrow> if c = 1 then Inr \<lparr>shape = [h, w, 3], planes = RGB\<rparr> else Inl CvError
      | _ \<Rightarrow> Inl CvError)"
| "cvtColor a COLOR_BGR2RGB =
     (case shape a of
        [h, w, c] \<Rightarrow> if c = 3 \<or> c = 4 then Inr \<lparr>shape = [h, w, 3], planes = RGB\<rparr> else Inl CvError
      | _ \<Rightarrow> Inl CvError)"

definition image_path :: "string \<Rightarrow> string \<Rightarrow> string \<Rightarrow> string" where
  "image_path root_dir dataset_type image_id' = root_dir @ ''/'' @ dataset_type @ ''/'' @ image_id' @ ''.jpg''"

text \<open>\<^verbatim>\<open>image.shape[2]\<close> on \<^verbatim>\<open>None\<close> raises \<^verbatim>\<open>AttributeError\<close>; on an array of fewer
  than three dimensions the tuple index raises \<^verbatim>\<open>IndexError\<close>.\<close>

definition read_image ::
  "(string \<Rightarrow> ndarray option) \<Rightarrow> string \<Rightarrow> string \<Rightarrow> string \<Rightarrow> error + ndarray" where
  "read_image imread root_dir dataset_type image_id' =
     (case imread (image_path root_dir dataset_type image_id') of
        None \<Rightarrow> Inl AttributeError
      | Some img \<Rightarrow>
          (case py_index (length (shape img)) 2 of
             Inl e \<Rightarrow> Inl e
           | Inr k \<Rightarrow>
               if shape img ! k = 1 then cvtColor img COLOR_GRAY2RGB
               else cvtColor img COLOR_BGR2RGB))"

text \<open>
  The dataset object. Its fields carry the prefix \<open>ds_\<close>; \<open>ds_balance_data\<close> is the
  attribute \<^verbatim>\<open>self.balance_data\<close>, \<open>ds_min_image_num\<close> is \<open>-1\<close> until balancing sets it. A
  class name is a text or the NaN of a blank cell (\<open>None\<close>). The two transforms are
  injected callables, opaque here.
\<close>

type_synonym transform = "ndarray \<Rightarrow> box list \<Rightarrow> int list \<Rightarrow> ndarray \<times> box list \<times> int list"
type_synonym target_transform = "box list \<Rightarrow> int list \<Rightarrow> box list \<times> int list"

record dataset =
  ds_root :: string
  ds_transform :: "transform option"
  ds_target_transform :: "target_transform option"
  ds_dataset_type :: string
  ds_data :: "image_info list"
  ds_class_names :: "string option list"
  ds_class_dict :: "string option \<rightharpoonup> int"
  ds_balance_data :: bool
  ds_min_image_num :: int

definition getitem ::
  "(string \<Rightarrow> ndarray option) \<Rightarrow> dataset \<Rightarrow> int \<Rightarrow> error + (ndarray \<times> box list \<times> int list)" where
  "getitem imread self index =
     (case py_index (length (ds_data self)) index of
        Inl e \<Rightarrow> Inl e
      | Inr k \<Rightarrow>
          let image_info = ds_data self ! k in
          (case read_image imread (ds_root self) (ds_dataset_type self) (image_id image_info) of
             Inl e \<Rightarrow> Inl e
           | Inr img \<Rightarrow>
               let (img1, boxes1, labels1) =
                     (case ds_transform self of
                        None \<Rightarrow> (img, boxes image_info, labels image_info)
                      | Some t \<Rightarrow> t img (boxes image_info) (labels image_info));
                   (boxes2, labels2) =
                     (case ds_target_transform self of
                        None \<Rightarrow> (boxes1, labels1)
                      | Some tt \<Rightarrow> tt boxes1 labels1)
               in Inr (img1, boxes2, labels2)))"

definition len :: "dataset \<Rightarrow> nat" where
  "len self = length (ds_data self)"

subsection \<open>\<^verbatim>\<open>__init__\<close>\<close>








section \<open>The training script (\<^verbatim>\<open>train_ssd.py\<close>)\<close>

subsection \<open>\<^verbatim>\<open>train\<close> and \<^verbatim>\<open>test\<close>\<close>

text \<open>
  The network, the criterion and the optimizer are opaque. One batch of training
  (\<^verbatim>\<open>optimizer.zero_grad()\<close>, the forward pass, the criterion, \<^verbatim>\<open>loss.backward()\<close>,
  \<^verbatim>\<open>optimizer.step()\<close>) is a function from the state of network and optimizer and the
  batch to the new state and the two values \<^verbatim>\<open>regression_loss.item()\<close> and
  \<^verbatim>\<open>classification_loss.item()\<close>; \<^verbatim>\<open>loss\<close> is their sum. The loader is the list of its
  batches, \<^verbatim>\<open>len(loader)\<close> the length of that list. What \<^verbatim>\<open>logging.info\<close> prints is
  collected in a log.
\<close>

datatype log_record =
    StepLog int nat real real real
  | EpochLog int real real real

record 's train_vars =
  tv_state :: 's
  running_loss :: real
  running_regression_loss :: real
  running_classification_loss :: real
  epoch_loss :: real
  epoch_regression_loss :: real
  epoch_classification_loss :: real
  epoch_steps :: nat
  tv_log :: "log_record list"

text \<open>\<^verbatim>\<open>for i, data in enumerate(loader)\<close>, from step \<open>i\<close> on. In
  \<^verbatim>\<open>if i and i % debug_steps == 0\<close> the remainder is only computed when \<open>i\<close> is not 0, and
  raises \<^verbatim>\<open>ZeroDivisionError\<close> when \<^verbatim>\<open>debug_steps\<close> is 0.\<close>

fun train_loop ::
  "('s \<Rightarrow> 'b \<Rightarrow> 's \<times> real \<times> real) \<Rightarrow> int \<Rightarrow> int \<Rightarrow> nat \<Rightarrow> 'b list \<Rightarrow> 's train_vars \<Rightarrow>
     error + 's train_vars" where
  "train_loop step debug_steps epoch i [] v = Inr v"
| "train_loop step debug_steps epoch i (data # rest) v =
     (case step (tv_state v) data of
        (s', regression_loss, classification_loss) \<Rightarrow>
          let loss = regression_loss + classification_loss;
              v1 = v\<lparr>tv_state := s',
                     running_loss := running_loss v + loss,
                     running_regression_loss := running_regression_loss v + regression_loss,
                     running_classification_loss := running_classification_loss v + classification_loss,
                     epoch_loss := epoch_loss v + loss,
                     epoch_regression_loss := epoch_regression_loss v + regression_loss,
                     epoch_classification_loss := epoch_classification_loss v + classification_loss,
                     epoch_steps := epoch_steps v + 1\<rparr>
          in if i \<noteq> 0 then
               (if debug_steps = 0 then Inl ZeroDivisionError
                else if int i mod debug_steps = 0 then
                  train_loop step debug_steps epoch (Suc i) rest
                    (v1\<lparr>tv_log := tv_log v1 @
                           [StepLog epoch i
                              (running_loss v1 / real_of_int debug_steps)
                              (running_regression_loss v1 / real_of_int debug_steps)
                              (running_classification_loss v1 / real_of_int debug_steps)],
                         running_loss := 0,
                         running_regression_loss := 0,
                         running_classification_loss := 0\<rparr>)
                else train_loop step debug_steps epoch (Suc i) rest v1)
             else train_loop step debug_steps epoch (Suc i) rest v1)"

definition train_init :: "'s \<Rightarrow> 's train_vars" where
  "train_init s =
     \<lparr>tv_state = s, running_loss = 0, running_regression_loss = 0,
      running_classification_loss = 0, epoch_loss = 0, epoch_regression_loss = 0,
      epoch_classification_loss = 0, epoch_steps = 0, tv_log = []\<rparr>"

text \<open>The division by \<^verbatim>\<open>len(loader)\<close> raises \<^verbatim>\<open>ZeroDivisionError\<close> on an empty loader.
  The result is the state after the pass, the log, and the three averages returned.\<close>

definition train ::
  "'b list \<Rightarrow> ('s \<Rightarrow> 'b \<Rightarrow> 's \<times> real \<times> real) \<Rightarrow> 's \<Rightarrow> int \<Rightarrow> int \<Rightarrow>
     error + ('s \<times> log_record list \<times> real \<times> real \<times> real)" where
  "train loader step s debug_steps epoch =
     (case train_loop step debug_steps epoch 0 loader (train_init s) of
        Inl e \<Rightarrow> Inl e
      | Inr v \<Rightarrow>
          if length loader = 0 then Inl ZeroDivisionError
          else
            let epoch_loss' = epoch_loss v / real (length loader);
                epoch_regression_loss' = epoch_regression_loss v / real (length loader);
                epoch_classification_loss' = epoch_classification_loss v / real (length loader)
            in Inr (tv_state v,
                    tv_log v @ [EpochLog epoch epoch_loss' epoch_regression_loss' epoch_classification_loss'],
                    epoch_loss', epoch_regression_loss', epoch_classification_loss'))"

text \<open>The per-batch loss values of a pass, as the opaque step produces them one batch
  after the other: \<open>(regression, classification)\<close>.\<close>

fun batch_losses :: "('s \<Rightarrow> 'b \<Rightarrow> 's \<times> real \<times> real) \<Rightarrow> 's \<Rightarrow> 'b list \<Rightarrow> (real \<times> real) list" where
  "batch_losses step s [] = []"
| "batch_losses step s (data # rest) =
     (case step s data of (s', r, c) \<Rightarrow> (r, c) # batch_losses step s' rest)"

text \<open>\<^verbatim>\<open>test\<close>: the evaluation of one batch is a function of the network's state and the
  batch; \<open>(running_loss, running_regression_loss, running_classification_loss, num)\<close> is
  the accumulator.\<close>

fun test_loop ::
  "('n \<Rightarrow> 'b \<Rightarrow> real \<times> real) \<Rightarrow> 'n \<Rightarrow> 'b list \<Rightarrow> real \<times> real \<times> real \<times> nat \<Rightarrow>
     real \<times> real \<times> real \<times> nat" where
  "test_loop eval n [] acc = acc"
| "test_loop eval n (data # rest) (running_loss', running_regression_loss', running_classification_loss', num) =
     (case eval n data of
        (regression_loss, classification_loss) \<Rightarrow>
          test_loop eval n rest
            (running_loss' + (regression_loss + classification_loss),
             running_regression_loss' + regression_loss,
             running_classification_loss' + classification_loss,
             num + 1))"

definition test :: "'b list \<Rightarrow> ('n \<Rightarrow> 'b \<Rightarrow> real \<times> real) \<Rightarrow> 'n \<Rightarrow> error + (real \<times> real \<times> real)" where
  "test loader eval n =
     (case test_loop eval n loader (0, 0, 0, 0) of
        (running_loss', running_regression_loss', running_classification_loss', num) \<Rightarrow>
          if num = 0 then Inl ZeroDivisionError
          else Inr (running_loss' / real num, running_regression_loss' / real num,
                    running_classification_loss' / real num))"

text \<open>The three averages are all that \<^verbatim>\<open>train\<close> returns to its caller.\<close>

definition returned ::
  "error + ('s \<times> log_record list \<times> real \<times> real \<times> real) \<Rightarrow> error + (real \<times> real \<times> real)" where
  "returned r = (case r of Inl e \<Rightarrow> Inl e | Inr (s1, lg, avgs) \<Rightarrow> Inr avgs)"

text \<open>The words of the specification: the sums of the per-batch loss values (total,
  regression, classification) divided by a count \<open>n\<close>.\<close>

definition batch_average :: "(real \<times> real) list \<Rightarrow> nat \<Rightarrow> real \<times> real \<times> real" where
  "batch_average L n =
     (sum_list (map (\<lambda>(r, c). r + c) L) / real n, sum_list (map fst L) / real n,
      sum_list (map snd L) / real n)"


subsection \<open>Arguments\<close>

text \<open>
  The options of the command line that the modelled part of the script reads. In
  \<open>cmdline\<close> an option that was not given is \<open>None\<close> (a flag: \<open>False\<close>);
  \<open>parse_args\<close> puts the defaults of the \<^verbatim>\<open>add_argument\<close> calls in their place. The
  fields of \<^verbatim>\<open>args\<close> carry the prefix \<open>args_\<close>. \<^verbatim>\<open>--base-net\<close>, \<^verbatim>\<open>--resume\<close> and
  \<^verbatim>\<open>--extra-layers-lr\<close> default to \<^verbatim>\<open>None\<close>; \<^verbatim>\<open>--base-net-lr\<close> defaults to \<open>0.001\<close>.
\<close>

record cmdline =
  opt_net :: "string option"
  opt_freeze_base_net :: bool
  opt_freeze_net :: bool
  opt_base_net :: "string option"
  opt_pretrained_ssd :: "string option"
  opt_resume :: "string option"
  opt_lr :: "real option"
  opt_momentum :: "real option"
  opt_weight_decay :: "real option"
  opt_base_net_lr :: "real option"
  opt_extra_layers_lr :: "real option"
  opt_scheduler :: "string option"
  opt_milestones :: "string option"
  opt_t_max :: "real option"
  opt_patience :: "int option"
  opt_num_epochs :: "int option"
  opt_validation_epochs :: "int option"
  opt_checkpoint_epochs :: "int option"
  opt_debug_steps :: "int option"
  opt_checkpoint_folder :: "string option"

record args =
  args_net :: string
  args_freeze_base_net :: bool
  args_freeze_net :: bool
  args_base_net :: "string option"
  args_pretrained_ssd :: "string option"
  args_resume :: "string option"
  args_lr :: real
  args_momentum :: real
  args_weight_decay :: real
  args_base_net_lr :: "real option"
  args_extra_layers_lr :: "real option"
  args_scheduler :: string
  args_milestones :: string
  args_t_max :: real
  args_patience :: int
  args_num_epochs :: int
  args_validation_epochs :: int
  args_checkpoint_epochs :: int
  args_debug_steps :: int
  args_checkpoint_folder :: string

definition default :: "'a \<Rightarrow> 'a option \<Rightarrow> 'a" where
  "default d given = (case given of None \<Rightarrow> d | Some v \<Rightarrow> v)"

definition parse_args :: "cmdline \<Rightarrow> args" where
  "parse_args c =
     \<lparr>args_net = default ''mb1-ssd'' (opt_net c),
      args_freeze_base_net = opt_freeze_base_net c,
      args_freeze_net = opt_freeze_net c,
      args_base_net = opt_base_net c,
      args_pretrained_ssd = Some (default ''models/mobilenet-v1-ssd-mp-0_675.pth'' (opt_pretrained_ssd c)),
      args_resume = opt_resume c,
      args_lr = default (1/100) (opt_lr c),
      args_momentum = default (9/10) (opt_momentum c),
      args_weight_decay = default (5/10000) (opt_weight_decay c),
      args_base_net_lr = Some (default (1/1000) (opt_base_net_lr c)),
      args_extra_layers_lr = opt_extra_layers_lr c,
      args_scheduler = default ''cosine'' (opt_scheduler c),
      args_milestones = default ''80,100'' (opt_milestones c),
      args_t_max = default 100 (opt_t_max c),
      args_patience = default 10 (opt_patience c),
      args_num_epochs = default 30 (opt_num_epochs c),
      args_validation_epochs = default 1 (opt_validation_epochs c),
      args_checkpoint_epochs = default 1 (opt_checkpoint_epochs c),
      args_debug_steps = default 10 (opt_debug_steps c),
      args_checkpoint_folder = default ''models/'' (opt_checkpoint_folder c)\<rparr>"

text \<open>An optional path as \<^verbatim>\<open>if args.resume:\<close> reads it: \<^verbatim>\<open>None\<close> and the empty string
  count as not given.\<close>

definition given_path :: "string option \<Rightarrow> string option" where
  "given_path v = (case v of None \<Rightarrow> None | Some s \<Rightarrow> if s = [] then None else Some s)"

subsection \<open>Network, optimizer and checkpoint files\<close>

text \<open>
  The network is opaque but for what the script touches: its five groups of layers,
  the number of parameter tensors of each, which groups \<^verbatim>\<open>freeze_net_layers\<close> has frozen,
  and its weights (the \<^verbatim>\<open>state_dict\<close>), a value of an unknown type \<open>'w\<close>. \<open>fits\<close> says
  whether a \<^verbatim>\<open>state_dict\<close> has the shapes of this architecture.
\<close>

datatype layer =
  Base_net | Source_layer_add_ons | Extras | Regression_headers | Classification_headers

type_synonym param = "layer \<times> nat"

record 'w ssd =
  weights :: 'w
  n_params :: "layer \<Rightarrow> nat"
  frozen :: "layer list"
  fits :: "'w \<Rightarrow> bool"

definition parameters :: "'w ssd \<Rightarrow> layer \<Rightarrow> param list" where
  "parameters n l = map (\<lambda>i. (l, i)) [0..<n_params n l]"

definition freeze_net_layers :: "layer \<Rightarrow> 'w ssd \<Rightarrow> 'w ssd" where
  "freeze_net_layers l n = n\<lparr>frozen := frozen n @ [l]\<rparr>"

text \<open>
  A parameter group as the script writes it (a dictionary with \<^verbatim>\<open>params\<close> and perhaps
  \<^verbatim>\<open>lr\<close>), and as the optimizer holds it, the defaults filled in. \<^verbatim>\<open>initial_lr\<close> is the
  key a learning-rate scheduler adds. What is passed to \<^verbatim>\<open>torch.optim.SGD\<close> is an
  iterable of tensors or a list of such dictionaries.
\<close>

record group_spec =
  gs_params :: "param list"
  gs_lr :: "real option"

datatype sgd_params = Tensors "param list" | Groups "group_spec list"

record group =
  params :: "param list"
  lr :: real
  momentum :: real
  weight_decay :: real
  initial_lr :: "real option"

record 'o optimizer =
  param_groups :: "group list"
  opt_state :: "'o option"

text \<open>\<^verbatim>\<open>torch.optim.SGD(params, lr, momentum, weight_decay)\<close>: it rejects a negative
  default and an empty parameter list, and starts with no state.\<close>

definition SGD :: "sgd_params \<Rightarrow> real \<Rightarrow> real \<Rightarrow> real \<Rightarrow> error + 'o optimizer" where
  "SGD ps lr' momentum' weight_decay' =
     (if lr' < 0 \<or> momentum' < 0 \<or> weight_decay' < 0 then Inl ValueError
      else
        (case ps of
           Tensors ts \<Rightarrow>
             if ts = [] then Inl ValueError
             else Inr \<lparr>param_groups =
                         [\<lparr>params = ts, lr = lr', momentum = momentum',
                           weight_decay = weight_decay', initial_lr = None\<rparr>],
                       opt_state = None\<rparr>
         | Groups gs \<Rightarrow>
             if gs = [] then Inl ValueError
             else Inr \<lparr>param_groups =
                         map (\<lambda>g. \<lparr>params = gs_params g, lr = default lr' (gs_lr g),
                                    momentum = momentum', weight_decay = weight_decay',
                                    initial_lr = None\<rparr>) gs,
                       opt_state = None\<rparr>))"

text \<open>\<^verbatim>\<open>Optimizer.load_state_dict\<close>: the saved groups must be as many as the
  optimizer's, each with as many parameters; then the saved options and state replace
  the optimizer's, and each group keeps its own parameters.\<close>

definition load_state_dict :: "'o optimizer \<Rightarrow> 'o optimizer \<Rightarrow> error + 'o optimizer" where
  "load_state_dict opt saved =
     (if length (param_groups opt) \<noteq> length (param_groups saved) then Inl ValueError
      else if list_ex (\<lambda>(g, sg). length (params g) \<noteq> length (params sg))
                (zip (param_groups opt) (param_groups saved))
      then Inl ValueError
      else Inr \<lparr>param_groups =
                  map (\<lambda>(g, sg). sg\<lparr>params := params g\<rparr>)
                    (zip (param_groups opt) (param_groups saved)),
                opt_state = opt_state saved\<rparr>)"

text \<open>The options of a group, that is all of it but its parameters.\<close>

definition group_options :: "group \<Rightarrow> real \<times> real \<times> real \<times> real option" where
  "group_options g = (lr g, momentum g, weight_decay g, initial_lr g)"

text \<open>What \<^verbatim>\<open>torch.load\<close> finds in a file: a checkpoint dictionary with the keys
  \<^verbatim>\<open>optimizer_state_dict\<close> and \<^verbatim>\<open>training_epoch\<close> that the script reads (and the
  weights), or something else, such as the bare weights of a pretrained model.\<close>

datatype ('w, 'o) torch_file =
    Checkpoint (model_state_dict: 'w) (optimizer_state_dict: "'o optimizer") (training_epoch: int)
  | Weights 'w

text \<open>Subscripting what \<^verbatim>\<open>torch.load(path)\<close> returns: a missing file raises
  \<^verbatim>\<open>FileNotFoundError\<close>, a missing key \<^verbatim>\<open>KeyError\<close>.\<close>

definition load_checkpoint ::
  "(string \<Rightarrow> ('w, 'o) torch_file option) \<Rightarrow> string \<Rightarrow> error + ('w \<times> 'o optimizer \<times> int)" where
  "load_checkpoint files path =
     (case files path of
        None \<Rightarrow> Inl FileNotFoundError
      | Some (Weights w) \<Rightarrow> Inl KeyError
      | Some (Checkpoint w od e) \<Rightarrow> Inr (w, od, e))"

text \<open>Modelled from the spec: \<^verbatim>\<open>net.load\<close> of \<^verbatim>\<open>vision/ssd/ssd.py\<close>, which is not among
  the sources. The specification has a resume load the model weights of the checkpoint,
  and fail with \<^verbatim>\<open>CheckpointError\<close> when the file is missing or does not fit the
  architecture.\<close>

definition net_load ::
  "(string \<Rightarrow> ('w, 'o) torch_file option) \<Rightarrow> string \<Rightarrow> 'w ssd \<Rightarrow> error + 'w ssd" where
  "net_load files path n =
     (case files path of
        Some (Checkpoint w od e) \<Rightarrow> if fits n w then Inr (n\<lparr>weights := w\<rparr>) else Inl CheckpointError
      | _ \<Rightarrow> Inl CheckpointError)"

subsection \<open>Start-up: parameter groups, loading, optimizer\<close>

text \<open>
  What the script works with but does not define: the files \<^verbatim>\<open>torch.load\<close> can read, the
  two initialisers of \<^verbatim>\<open>vision/ssd/ssd.py\<close>, the parsing of the milestone string
  (\<^verbatim>\<open>int(v.strip())\<close> for the parts between commas; \<open>None\<close> is its \<^verbatim>\<open>ValueError\<close>), the
  batches of the training loader in each epoch and of the validation loader, one batch
  of training and of evaluation, what a scheduler does to the optimizer when it is
  created and when it is stepped, and the time stamp of the run.
\<close>

datatype pyval = PyNone | PyInt int | PyFloat real

datatype scheduler =
    MultiStepLR "int list" real int
  | CosineAnnealingLR real int
  | ReduceLROnPlateau int

record ('w, 'o, 'b) env =
  torch_load :: "string \<Rightarrow> ('w, 'o) torch_file option"
  init_from_base_net :: "string \<Rightarrow> 'w ssd \<Rightarrow> error + 'w ssd"
  init_from_pretrained_ssd :: "string \<Rightarrow> 'w ssd \<Rightarrow> error + 'w ssd"
  int_list :: "string \<Rightarrow> int list option"
  train_loader :: "int \<Rightarrow> 'b list"
  val_loader :: "'b list"
  train_batch :: "'w ssd \<times> 'o optimizer \<Rightarrow> 'b \<Rightarrow> ('w ssd \<times> 'o optimizer) \<times> real \<times> real"
  eval_batch :: "'w ssd \<Rightarrow> 'b \<Rightarrow> real \<times> real"
  scheduler_init :: "scheduler \<Rightarrow> 'o optimizer \<Rightarrow> 'o optimizer"
  scheduler_step :: "scheduler \<Rightarrow> pyval \<Rightarrow> 'o optimizer \<Rightarrow> scheduler \<times> 'o optimizer"
  start_time :: string

text \<open>\<^verbatim>\<open>args.base_net_lr if args.base_net_lr is not None else args.lr\<close>, and the same for
  the extra layers.\<close>

definition base_net_lr :: "args \<Rightarrow> real" where
  "base_net_lr a = (case args_base_net_lr a of Some v \<Rightarrow> v | None \<Rightarrow> args_lr a)"

definition extra_layers_lr :: "args \<Rightarrow> real" where
  "extra_layers_lr a = (case args_extra_layers_lr a of Some v \<Rightarrow> v | None \<Rightarrow> args_lr a)"

text \<open>The freeze policy: the network with its frozen layers, and \<^verbatim>\<open>params\<close>.\<close>

definition choose_params :: "args \<Rightarrow> 'w ssd \<Rightarrow> 'w ssd \<times> sgd_params" where
  "choose_params a n =
     (if args_freeze_base_net a then
        (freeze_net_layers Base_net n,
         Groups
           [\<lparr>gs_params = parameters n Source_layer_add_ons @ parameters n Extras,
             gs_lr = Some (extra_layers_lr a)\<rparr>,
            \<lparr>gs_params = parameters n Regression_headers @ parameters n Classification_headers,
             gs_lr = None\<rparr>])
      else if args_freeze_net a then
        (freeze_net_layers Extras
           (freeze_net_layers Source_layer_add_ons (freeze_net_layers Base_net n)),
         Tensors (parameters n Regression_headers @ parameters n Classification_headers))
      else
        (n,
         Groups
           [\<lparr>gs_params = parameters n Base_net, gs_lr = Some (base_net_lr a)\<rparr>,
            \<lparr>gs_params = parameters n Source_layer_add_ons @ parameters n Extras,
             gs_lr = Some (extra_layers_lr a)\<rparr>,
            \<lparr>gs_params = parameters n Regression_headers @ parameters n Classification_headers,
             gs_lr = None\<rparr>]))"

text \<open>Loading the model: resume, else the base net, else the pretrained SSD.\<close>

definition load_model :: "('w, 'o, 'b) env \<Rightarrow> args \<Rightarrow> 'w ssd \<Rightarrow> error + 'w ssd" where
  "load_model env a n =
     (case given_path (args_resume a) of
        Some path \<Rightarrow> net_load (torch_load env) path n
      | None \<Rightarrow>
          (case given_path (args_base_net a) of
             Some path \<Rightarrow> init_from_base_net env path n
           | None \<Rightarrow>
               (case given_path (args_pretrained_ssd a) of
                  Some path \<Rightarrow> init_from_pretrained_ssd env path n
                | None \<Rightarrow> Inr n)))"

text \<open>\<^verbatim>\<open>if args.resume:\<close> after the optimizer is built: the optimizer's state and
  \<^verbatim>\<open>r_epoch\<close> come from the checkpoint, and \<^verbatim>\<open>last_epoch = r_epoch\<close>. Without it
  \<^verbatim>\<open>last_epoch\<close> is \<open>-1\<close> and \<^verbatim>\<open>r_epoch\<close> is 0. The script reads the file once for each of
  the two keys; files do not change in the model, which reads it once. The result is
  \<open>(optimizer, last_epoch, r_epoch)\<close>.\<close>

definition resume_optimizer ::
  "('w, 'o, 'b) env \<Rightarrow> args \<Rightarrow> 'o optimizer \<Rightarrow> error + ('o optimizer \<times> int \<times> int)" where
  "resume_optimizer env a opt =
     (case given_path (args_resume a) of
        None \<Rightarrow> Inr (opt, - 1, 0)
      | Some path \<Rightarrow>
          (case load_checkpoint (torch_load env) path of
             Inl e \<Rightarrow> Inl e
           | Inr (w, od, r_epoch') \<Rightarrow>
               (case load_state_dict opt od of
                  Inl e \<Rightarrow> Inl e
                | Inr opt' \<Rightarrow> Inr (opt', r_epoch', r_epoch'))))"

text \<open>\<^verbatim>\<open>optimizer.param_groups[i]['lr']\<close>\<close>

definition group_lr :: "'o optimizer \<Rightarrow> int \<Rightarrow> error + real" where
  "group_lr opt i =
     (case py_index (length (param_groups opt)) i of
        Inl e \<Rightarrow> Inl e
      | Inr k \<Rightarrow> Inr (lr (param_groups opt ! k)))"

text \<open>The three reads before the learning rates are logged, in the script's order:
  group 2, group 0, group 1.\<close>

definition read_lrs :: "'o optimizer \<Rightarrow> error + (real \<times> real \<times> real)" where
  "read_lrs opt =
     (case group_lr opt 2 of
        Inl e \<Rightarrow> Inl e
      | Inr o_lr \<Rightarrow>
          (case group_lr opt 0 of
             Inl e \<Rightarrow> Inl e
           | Inr o_b_lr \<Rightarrow>
               (case group_lr opt 1 of
                  Inl e \<Rightarrow> Inl e
                | Inr o_el_lr \<Rightarrow> Inr (o_lr, o_b_lr, o_el_lr))))"

text \<open>The state of the script when it reaches the choice of the scheduler.\<close>

record ('w, 'o) prepared =
  p_net :: "'w ssd"
  p_optimizer :: "'o optimizer"
  last_epoch :: int
  r_epoch :: int
  logged_lrs :: "real \<times> real \<times> real"

definition prepare :: "('w, 'o, 'b) env \<Rightarrow> args \<Rightarrow> 'w ssd \<Rightarrow> error + ('w, 'o) prepared" where
  "prepare env a n0 =
     (case choose_params a n0 of
        (n1, ps) \<Rightarrow>
          (case load_model env a n1 of
             Inl e \<Rightarrow> Inl e
           | Inr n2 \<Rightarrow>
               (case SGD ps (args_lr a) (args_momentum a) (args_weight_decay a) of
                  Inl e \<Rightarrow> Inl e
                | Inr opt \<Rightarrow>
                    (case resume_optimizer env a opt of
                       Inl e \<Rightarrow> Inl e
                     | Inr (opt', last_epoch', r_epoch') \<Rightarrow>
                         (case read_lrs opt' of
                            Inl e \<Rightarrow> Inl e
                          | Inr lrs \<Rightarrow>
                              Inr \<lparr>p_net = n2, p_optimizer = opt', last_epoch = last_epoch',
                                   r_epoch = r_epoch', logged_lrs = lrs\<rparr>)))))"

text \<open>The learning rates of the optimizer's groups after the start-up, in the order
  of the groups.\<close>

definition group_rates :: "error + ('w, 'o) prepared \<Rightarrow> error + real list" where
  "group_rates r = (case r of Inl e \<Rightarrow> Inl e | Inr p \<Rightarrow> Inr (map lr (param_groups (p_optimizer p))))"

subsection \<open>The scheduler\<close>

text \<open>The constructor of \<^verbatim>\<open>MultiStepLR\<close> and \<^verbatim>\<open>CosineAnnealingLR\<close>: with \<^verbatim>\<open>last_epoch\<close>
  \<open>-1\<close> every group gets its \<^verbatim>\<open>initial_lr\<close>; otherwise a group without one raises
  \<^verbatim>\<open>KeyError\<close>.\<close>

definition with_initial_lr :: "int \<Rightarrow> 'o optimizer \<Rightarrow> error + 'o optimizer" where
  "with_initial_lr last_epoch' opt =
     (if last_epoch' = - 1 then
        Inr (opt\<lparr>param_groups :=
                   map (\<lambda>g. g\<lparr>initial_lr := Some (default (lr g) (initial_lr g))\<rparr>)
                     (param_groups opt)\<rparr>)
      else if list_ex (\<lambda>g. initial_lr g = None) (param_groups opt) then Inl KeyError
      else Inr opt)"

definition make_scheduler ::
  "('w, 'o, 'b) env \<Rightarrow> args \<Rightarrow> int \<Rightarrow> 'o optimizer \<Rightarrow> error + (scheduler \<times> 'o optimizer)" where
  "make_scheduler env a last_epoch' opt =
     (if args_scheduler a = ''multi-step'' then
        (case int_list env (args_milestones a) of
           None \<Rightarrow> Inl ValueError
         | Some milestones \<Rightarrow>
             (case with_initial_lr last_epoch' opt of
                Inl e \<Rightarrow> Inl e
              | Inr opt' \<Rightarrow>
                  let s = MultiStepLR milestones (1/10) last_epoch'
                  in Inr (s, scheduler_init env s opt')))
      else if args_scheduler a = ''cosine'' then
        (case with_initial_lr last_epoch' opt of
           Inl e \<Rightarrow> Inl e
         | Inr opt' \<Rightarrow>
             let s = CosineAnnealingLR (args_t_max a) last_epoch'
             in Inr (s, scheduler_init env s opt'))
      else if args_scheduler a = ''reduce-on-plateau'' then
        Inr (ReduceLROnPlateau (args_patience a), opt)
      else Inl SystemExit)"


subsection \<open>The epoch loop\<close>

text \<open>
  The name of a checkpoint file,
  \<^verbatim>\<open>os.path.join(args.checkpoint_folder, f"{start_time}_{args.net}-Epoch-{epoch}-Loss-{val_loss}.pth")\<close>,
  is kept as the values the format string is filled with.
\<close>

record model_path =
  mp_folder :: string
  mp_start_time :: string
  mp_net :: string
  mp_epoch :: int
  mp_loss :: real

text \<open>
  What an iteration does to the world outside, in the order it happens: \<^verbatim>\<open>train\<close> has
  returned its averages for an epoch; \<^verbatim>\<open>test\<close> has returned its averages; a row
  (epoch, learning rate, three training losses, three validation losses) was written to
  the report; \<^verbatim>\<open>net.save(model_path, optimizer, epoch)\<close> was called, recorded with the
  path, the weights of the network, the optimizer and the epoch passed;
  \<^verbatim>\<open>scheduler.step(val_loss)\<close> was called with a value.
\<close>

datatype ('w, 'o) event =
    Trained int real real real
  | Validated int real real real
  | ReportRow int "real option" real real real real real real
  | Saved model_path 'w "'o optimizer" int
  | SchedulerStep pyval

record ('w, 'o) run =
  net :: "'w ssd"
  optimizer :: "'o optimizer"
  scheduler :: scheduler
  current_model_path :: "model_path option"
  trace :: "('w, 'o) event list"

text \<open>\<^verbatim>\<open>get_current_lr\<close>: the learning rate of the first group; \<^verbatim>\<open>None\<close> without
  groups.\<close>

definition get_current_lr :: "'o optimizer \<Rightarrow> real option" where
  "get_current_lr opt = (case param_groups opt of [] \<Rightarrow> None | g # gs \<Rightarrow> Some (lr g))"

text \<open>\<^verbatim>\<open>epoch % args.validation_epochs == 0 or epoch == args.num_epochs - 1\<close>; the
  remainder is computed first and raises \<^verbatim>\<open>ZeroDivisionError\<close> for an interval of 0.\<close>

definition validation_due :: "args \<Rightarrow> int \<Rightarrow> error + bool" where
  "validation_due a epoch =
     (if args_validation_epochs a = 0 then Inl ZeroDivisionError
      else Inr (epoch mod args_validation_epochs a = 0 \<or> epoch = args_num_epochs a - 1))"

definition checkpoint_due :: "args \<Rightarrow> int \<Rightarrow> error + bool" where
  "checkpoint_due a epoch =
     (if args_checkpoint_epochs a = 0 then Inl ZeroDivisionError
      else Inr (epoch mod args_checkpoint_epochs a = 0 \<or> epoch = args_num_epochs a - 1))"

text \<open>The validation branch: \<^verbatim>\<open>test\<close>, the report row, and the assignment of
  \<^verbatim>\<open>model_path\<close>. It returns the new state and the new \<^verbatim>\<open>val_loss\<close>.\<close>

definition validate ::
  "('w, 'o, 'b) env \<Rightarrow> args \<Rightarrow> int \<Rightarrow> real \<times> real \<times> real \<Rightarrow> ('w, 'o) run \<Rightarrow>
     error + (('w, 'o) run \<times> pyval)" where
  "validate env a epoch training st =
     (case test (val_loader env) (eval_batch env) (net st) of
        Inl e \<Rightarrow> Inl e
      | Inr (val_loss, val_regression_loss, val_classification_loss) \<Rightarrow>
          (case training of
             (epoch_loss', epoch_regression_loss', epoch_classification_loss') \<Rightarrow>
               Inr (st\<lparr>trace := trace st @
                          [Validated epoch val_loss val_regression_loss val_classification_loss,
                           ReportRow epoch (get_current_lr (optimizer st))
                             epoch_loss' epoch_regression_loss' epoch_classification_loss'
                             val_loss val_regression_loss val_classification_loss],
                        current_model_path :=
                          Some \<lparr>mp_folder = args_checkpoint_folder a,
                                mp_start_time = start_time env, mp_net = args_net a,
                                mp_epoch = epoch, mp_loss = val_loss\<rparr>\<rparr>,
                    PyFloat val_loss)))"

text \<open>The checkpoint branch: \<^verbatim>\<open>model_path\<close> is read where the call is made, and is an
  unbound name (\<^verbatim>\<open>NameError\<close>) when no validation has assigned it yet.\<close>

definition save_checkpoint :: "int \<Rightarrow> ('w, 'o) run \<Rightarrow> error + ('w, 'o) run" where
  "save_checkpoint epoch st =
     (case current_model_path st of
        None \<Rightarrow> Inl NameError
      | Some path \<Rightarrow>
          Inr (st\<lparr>trace := trace st @ [Saved path (weights (net st)) (optimizer st) epoch]\<rparr>))"

text \<open>One iteration of \<^verbatim>\<open>for epoch in range(...)\<close>. An exception ends the run; the
  state returned with it holds what had been written before.\<close>

definition epoch_body ::
  "('w, 'o, 'b) env \<Rightarrow> args \<Rightarrow> int \<Rightarrow> ('w, 'o) run \<Rightarrow> ('w, 'o) run \<times> error option" where
  "epoch_body env a epoch st =
     (let val_loss = PyInt 0 in
      case train (train_loader env epoch) (train_batch env) (net st, optimizer st)
             (args_debug_steps a) epoch of
        Inl e \<Rightarrow> (st, Some e)
      | Inr ((net1, opt1), lg, training) \<Rightarrow>
          let st1 = st\<lparr>net := net1, optimizer := opt1,
                       trace := trace st @
                         [Trained epoch (fst training) (fst (snd training)) (snd (snd training))]\<rparr>
          in
          (case validation_due a epoch of
             Inl e \<Rightarrow> (st1, Some e)
           | Inr vd \<Rightarrow>
               (case (if vd then validate env a epoch training st1 else Inr (st1, val_loss)) of
                  Inl e \<Rightarrow> (st1, Some e)
                | Inr (st2, val_loss') \<Rightarrow>
                    (case checkpoint_due a epoch of
                       Inl e \<Rightarrow> (st2, Some e)
                     | Inr cd \<Rightarrow>
                         (case (if cd then save_checkpoint epoch st2 else Inr st2) of
                            Inl e \<Rightarrow> (st2, Some e)
                          | Inr st3 \<Rightarrow>
                              (case scheduler_step env (scheduler st3) val_loss' (optimizer st3) of
                                 (sched, opt) \<Rightarrow>
                                   (st3\<lparr>scheduler := sched, optimizer := opt,
                                        trace := trace st3 @ [SchedulerStep val_loss']\<rparr>,
                                    None)))))))"

fun epoch_loop ::
  "('w, 'o, 'b) env \<Rightarrow> args \<Rightarrow> int list \<Rightarrow> ('w, 'o) run \<Rightarrow> ('w, 'o) run \<times> error option" where
  "epoch_loop env a [] st = (st, None)"
| "epoch_loop env a (epoch # rest) st =
     (case epoch_body env a epoch st of
        (st', None) \<Rightarrow> epoch_loop env a rest st'
      | (st', Some e) \<Rightarrow> (st', Some e))"

text \<open>Python's \<^verbatim>\<open>range(a, b)\<close>, and the epochs of the loop,
  \<^verbatim>\<open>range(last_epoch + 1, args.num_epochs + r_epoch + 1)\<close>.\<close>

definition py_range :: "int \<Rightarrow> int \<Rightarrow> int list" where
  "py_range a b = [a..b - 1]"

definition epochs :: "args \<Rightarrow> ('w, 'o) prepared \<Rightarrow> int list" where
  "epochs a p = py_range (last_epoch p + 1) (args_num_epochs a + r_epoch p + 1)"

text \<open>The architectures the script knows; any other name ends it with
  \<^verbatim>\<open>sys.exit(1)\<close>.\<close>

definition known_net :: "string \<Rightarrow> bool" where
  "known_net name =
     (name \<in> set [''vgg16-ssd'', ''mb1-ssd'', ''mb1-ssd-lite'', ''sq-ssd-lite'', ''mb2-ssd-lite''])"

text \<open>The script from the choice of the architecture on, given the network that
  \<^verbatim>\<open>create_net\<close> built and the loaders: the trace of the run and the exception that
  ended it, if one did. The datasets, the report file's header and the logging are
  outside the model.\<close>

definition main ::
  "('w, 'o, 'b) env \<Rightarrow> args \<Rightarrow> 'w ssd \<Rightarrow> ('w, 'o) event list \<times> error option" where
  "main env a n0 =
     (if \<not> known_net (args_net a) then ([], Some SystemExit)
      else
        (case prepare env a n0 of
           Inl e \<Rightarrow> ([], Some e)
         | Inr p \<Rightarrow>
             (case make_scheduler env a (last_epoch p) (p_optimizer p) of
                Inl e \<Rightarrow> ([], Some e)
              | Inr (sched, opt) \<Rightarrow>
                  (case epoch_loop env a (epochs a p)
                          \<lparr>net = p_net p, optimizer = opt, scheduler = sched,
                           current_model_path = None, trace = []\<rparr> of
                     (st, err) \<Rightarrow> (trace st, err)))))"

text \<open>The calls of \<^verbatim>\<open>scheduler.step\<close> and of \<^verbatim>\<open>net.save\<close> in a trace.\<close>

fun scheduler_calls :: "('w, 'o) event list \<Rightarrow> pyval list" where
  "scheduler_calls [] = []"
| "scheduler_calls (SchedulerStep v # evs) = v # scheduler_calls evs"
| "scheduler_calls (ev # evs) = scheduler_calls evs"

fun saves :: "('w, 'o) event list \<Rightarrow> (model_path \<times> 'w \<times> int) list" where
  "saves [] = []"
| "saves (Saved path w opt epoch # evs) = (path, w, epoch) # saves evs"
| "saves (ev # evs) = saves evs"

text \<open>The epoch of the first \<^verbatim>\<open>train\<close> call of a run that got as far as returning from
  it.\<close>

definition first_epoch_run :: "('w, 'o) event list \<Rightarrow> int option" where
  "first_epoch_run evs = (case evs of Trained epoch l r c # rest \<Rightarrow> Some epoch | _ \<Rightarrow> None)"


section \<open>Concrete inputs\<close>

text \<open>The scenario of the specification: two images and three classes, class 1 in
  both images, classes 2 and 3 in one image each.\<close>

definition scenario_data :: "image_info list" where
  "scenario_data =
     [\<lparr>image_id = ''a'',
        boxes = [(Float 0, Float 0, Float (1/2), Float (1/2)),
                 (Float (1/4), Float (1/4), Float 1, Float 1)],
        labels = [1, 2]\<rparr>,
      \<lparr>image_id = ''b'',
        boxes = [(Float 0, Float 0, Float 1, Float 1),
                 (Float (1/2), Float 0, Float 1, Float (1/2))],
        labels = [1, 3]\<rparr>]"

definition scenario_classes :: "string list" where
  "scenario_classes = [''A'', ''B'', ''C'']"

text \<open>A vocabulary of two classes over data in which only the first occurs.\<close>

definition one_sided_data :: "image_info list" where
  "one_sided_data =
     [\<lparr>image_id = ''a'', boxes = [(Float 0, Float 0, Float 1, Float 1)], labels = [1]\<rparr>]"

definition one_sided_classes :: "string list" where
  "one_sided_classes = [''A'', ''B'']"

text \<open>A generator whose raw draws are all 0.\<close>

definition zero_rng :: rng where
  "zero_rng = (\<lambda>j. 0)"





definition no_images :: "string \<Rightarrow> ndarray option" where
  "no_images = (\<lambda>path. None)"

definition scenario_dataset :: dataset where
  "scenario_dataset =
     \<lparr>ds_root = ''data'', ds_transform = None, ds_target_transform = None,
      ds_dataset_type = ''train'', ds_data = scenario_data,
      ds_class_names = map Some scenario_classes,
      ds_class_dict = make_class_dict (map Some scenario_classes), ds_balance_data = False,
      ds_min_image_num = - 1\<rparr>"

text \<open>A loader of two batches holding three samples; the opaque step reports the
  number of samples of the batch as regression loss and their sum as classification
  loss.\<close>

definition two_batches :: "nat list list" where
  "two_batches = [[1, 2], [3]]"

definition count_step :: "nat \<Rightarrow> nat list \<Rightarrow> nat \<times> real \<times> real" where
  "count_step s b = (s + length b, real (length b), real (sum_list b))"

text \<open>A command line without options, and a small world for the script: a network with
  one parameter tensor in each group of layers, a checkpoint of epoch 5 at
  \<^verbatim>\<open>ckpt.pth\<close> whose optimizer has the three groups, loaders of two training batches
  and one validation batch, a training step that counts the batches in the weights, and
  schedulers that leave the optimizer alone.\<close>

definition no_options :: cmdline where
  "no_options =
     \<lparr>opt_net = None, opt_freeze_base_net = False, opt_freeze_net = False,
      opt_base_net = None, opt_pretrained_ssd = None, opt_resume = None, opt_lr = None,
      opt_momentum = None, opt_weight_decay = None, opt_base_net_lr = None,
      opt_extra_layers_lr = None, opt_scheduler = None, opt_milestones = None,
      opt_t_max = None, opt_patience = None, opt_num_epochs = None,
      opt_validation_epochs = None, opt_checkpoint_epochs = None, opt_debug_steps = None,
      opt_checkpoint_folder = None\<rparr>"

definition small_net :: "nat ssd" where
  "small_net = \<lparr>weights = 0, n_params = (\<lambda>l. 1), frozen = [], fits = (\<lambda>w. True)\<rparr>"

definition saved_optimizer :: "nat optimizer" where
  "saved_optimizer =
     \<lparr>param_groups =
        [\<lparr>params = [(Base_net, 0)], lr = 1/2, momentum = 9/10, weight_decay = 0, initial_lr = Some 1\<rparr>,
         \<lparr>params = [(Source_layer_add_ons, 0), (Extras, 0)], lr = 1/4, momentum = 9/10,
           weight_decay = 0, initial_lr = Some 1\<rparr>,
         \<lparr>params = [(Regression_headers, 0), (Classification_headers, 0)], lr = 1/8,
           momentum = 9/10, weight_decay = 0, initial_lr = Some 1\<rparr>],
      opt_state = Some 42\<rparr>"

definition small_env :: "(nat, nat, nat) env" where
  "small_env =
     \<lparr>torch_load = (\<lambda>path. if path = ''ckpt.pth'' then Some (Checkpoint 7 saved_optimizer 5) else None),
      init_from_base_net = (\<lambda>path n. Inr n),
      init_from_pretrained_ssd = (\<lambda>path n. Inr n),
      int_list = (\<lambda>s. Some [80, 100]),
      train_loader = (\<lambda>epoch. [1, 2]),
      val_loader = [1],
      train_batch = (\<lambda>(n, opt) b. ((n\<lparr>weights := weights n + 1\<rparr>, opt), 1, 2)),
      eval_batch = (\<lambda>n b. (real (weights n), 1)),
      scheduler_init = (\<lambda>s opt. opt),
      scheduler_step = (\<lambda>s v opt. (s, opt)),
      start_time = ''2020-01-01_0000.00''\<rparr>"

text \<open>The command lines \<^verbatim>\<open>--freeze-net\<close> and \<^verbatim>\<open>--freeze-base-net\<close>.\<close>

definition frozen_options :: cmdline where
  "frozen_options = no_options\<lparr>opt_freeze_net := True\<rparr>"

definition frozen_base_options :: cmdline where
  "frozen_base_options = no_options\<lparr>opt_freeze_base_net := True\<rparr>"

text \<open>Command lines: a resume from \<^verbatim>\<open>ckpt.pth\<close> for one epoch; the same with validation
  every fourth epoch (the checkpoint is due every epoch by default); validation every
  second epoch with a checkpoint every epoch; validation and checkpoint every second
  epoch. And the state of a run before its first iteration.\<close>

definition resume_options :: cmdline where
  "resume_options = no_options\<lparr>opt_resume := Some ''ckpt.pth'', opt_num_epochs := Some 1\<rparr>"


definition stale_options :: cmdline where
  "stale_options =
     no_options\<lparr>opt_validation_epochs := Some 2, opt_checkpoint_epochs := Some 1,
                opt_num_epochs := Some 1, opt_scheduler := Some ''reduce-on-plateau''\<rparr>"




section \<open>Properties of the dataset\<close>

subsection \<open>Indexing the images of each label\<close>

lemma py_index_valid: "0 \<le> l \<Longrightarrow> l < int n \<Longrightarrow> py_index n l = Inr (nat l)"
  by (simp add: py_index_def)

lemma add_labels_ok:
  "\<forall>l\<in>set ls. 0 \<le> l \<and> l < int (length lii) \<Longrightarrow>
   \<exists>lii'. add_labels i ls lii = Inr lii' \<and> length lii' = length lii \<and>
     (\<forall>k<length lii. lii' ! k = (if int k \<in> set ls then insert i (lii ! k) else lii ! k))"
proof (induction ls arbitrary: lii)
  case Nil
  then show ?case by simp
next
  case (Cons l ls)
  let ?lii1 = "lii[nat l := insert i (lii ! nat l)]"
  from Cons.prems have l: "0 \<le> l" "l < int (length lii)" by auto
  have "\<forall>l\<in>set ls. 0 \<le> l \<and> l < int (length ?lii1)" using Cons.prems by simp
  from Cons.IH[OF this] obtain lii' where
    a: "add_labels i ls ?lii1 = Inr lii'" and b: "length lii' = length lii"
    and c: "\<forall>k<length lii. lii' ! k = (if int k \<in> set ls then insert i (?lii1 ! k) else ?lii1 ! k)"
    by auto
  have "add_labels i (l # ls) lii = Inr lii'"
    using a l by (simp add: py_index_valid)
  moreover have "\<forall>k<length lii. lii' ! k = (if int k \<in> set (l # ls) then insert i (lii ! k) else lii ! k)"
  proof (intro allI impI)
    fix k assume k: "k < length lii"
    show "lii' ! k = (if int k \<in> set (l # ls) then insert i (lii ! k) else lii ! k)"
    proof (cases "k = nat l")
      case True
      then have "int k = l" using l by simp
      then show ?thesis using c k True by (auto simp: nth_list_update)
    next
      case False
      then have "int k \<noteq> l" using l by auto
      then show ?thesis using c k False by (auto simp: nth_list_update)
    qed
  qed
  ultimately show ?case using b by blast
qed

lemma index_images_ok:
  "\<forall>img\<in>set imgs. \<forall>l\<in>set (labels img). 0 \<le> l \<and> l < int (length lii) \<Longrightarrow>
   \<exists>lii'. index_images i imgs lii = Inr lii' \<and> length lii' = length lii \<and>
     (\<forall>k<length lii. lii' ! k = lii ! k \<union> {i + j | j. j < length imgs \<and> int k \<in> set (labels (imgs ! j))})"
proof (induction imgs arbitrary: i lii)
  case Nil
  then show ?case by simp
next
  case (Cons img imgs)
  from Cons.prems have "\<forall>l\<in>set (labels img). 0 \<le> l \<and> l < int (length lii)" by simp
  from add_labels_ok[OF this, of i] obtain lii1 where
    a: "add_labels i (labels img) lii = Inr lii1" and b: "length lii1 = length lii"
    and c: "\<forall>k<length lii. lii1 ! k = (if int k \<in> set (labels img) then insert i (lii ! k) else lii ! k)"
    by blast
  have "\<forall>img\<in>set imgs. \<forall>l\<in>set (labels img). 0 \<le> l \<and> l < int (length lii1)"
    using Cons.prems b by simp
  from Cons.IH[OF this, of "Suc i"] obtain lii' where
    d: "index_images (Suc i) imgs lii1 = Inr lii'" and e: "length lii' = length lii"
    and f: "\<forall>k<length lii. lii' ! k = lii1 ! k \<union> {Suc i + j | j. j < length imgs \<and> int k \<in> set (labels (imgs ! j))}"
    using b by auto
  have "index_images i (img # imgs) lii = Inr lii'" using a d by simp
  moreover have "\<forall>k<length lii. lii' ! k = lii ! k \<union> {i + j | j. j < length (img # imgs) \<and> int k \<in> set (labels ((img # imgs) ! j))}"
  proof (intro allI impI)
    fix k assume k: "k < length lii"
    have "{i + j | j. j < length (img # imgs) \<and> int k \<in> set (labels ((img # imgs) ! j))}
        = (if int k \<in> set (labels img) then {i} else {}) \<union> {Suc i + j | j. j < length imgs \<and> int k \<in> set (labels (imgs ! j))}"
      (is "?A = ?B")
    proof (rule set_eqI)
      fix x
      show "x \<in> ?A \<longleftrightarrow> x \<in> ?B"
      proof
        assume "x \<in> ?A"
        then obtain j where j: "x = i + j" "j < length (img # imgs)" "int k \<in> set (labels ((img # imgs) ! j))" by blast
        show "x \<in> ?B"
        proof (cases j)
          case 0
          then show ?thesis using j by simp
        next
          case (Suc j')
          then have "x = Suc i + j'" "j' < length imgs" "int k \<in> set (labels (imgs ! j'))" using j by auto
          then show ?thesis by blast
        qed
      next
        assume "x \<in> ?B"
        then consider "int k \<in> set (labels img)" "x = i" | j where "x = Suc i + j" "j < length imgs" "int k \<in> set (labels (imgs ! j))"
          by (auto split: if_splits)
        then show "x \<in> ?A"
        proof cases
          case 1
          then have "x = i + 0 \<and> 0 < length (img # imgs) \<and> int k \<in> set (labels ((img # imgs) ! 0))" by simp
          then show ?thesis by blast
        next
          case 2
          then have "x = i + Suc j \<and> Suc j < length (img # imgs) \<and> int k \<in> set (labels ((img # imgs) ! Suc j))" by simp
          then show ?thesis by blast
        qed
      qed
    qed
    then show "lii' ! k = lii ! k \<union> ?A" using f c k by auto
  qed
  ultimately show ?case using e by blast
qed

lemma class_image_count_card:
  "class_image_count data c = card {j. j < length data \<and> c \<in> set (labels (data ! j))}"
  by (simp add: class_image_count_def images_with_class_def length_filter_conv_card)

lemma vocabulary_valid:
  "labels_in_vocabulary data cn \<Longrightarrow>
   \<forall>img\<in>set data. \<forall>l\<in>set (labels img). 0 \<le> l \<and> l < int (length (replicate (length cn + 1) ({}::nat set)))"
  by (fastforce simp: labels_in_vocabulary_def list_all_iff)

lemma label_image_indexes:
  assumes "labels_in_vocabulary data cn"
  shows "\<exists>lii. index_images 0 data (replicate (length cn + 1) {}) = Inr lii \<and>
     length lii = length cn + 1 \<and>
     (\<forall>k\<le>length cn. lii ! k = {j. j < length data \<and> int k \<in> set (labels (data ! j))})"
proof -
  from index_images_ok[OF vocabulary_valid[OF assms], of 0]
  obtain lii where a: "index_images 0 data (replicate (length cn + 1) {}) = Inr lii"
    and b: "length lii = length (replicate (length cn + 1) ({}::nat set))"
    and c: "\<forall>k<length (replicate (length cn + 1) ({}::nat set)).
        lii ! k = replicate (length cn + 1) {} ! k \<union> {0 + j | j. j < length data \<and> int k \<in> set (labels (data ! j))}"
    by blast
  have "lii ! k = {j. j < length data \<and> int k \<in> set (labels (data ! j))}"
    if k: "k \<le> length cn" for k
  proof -
    have e: "replicate (length cn + 1) ({}::nat set) ! k = {}"
      by (rule nth_replicate) (use k in simp)
    have "k < length (replicate (length cn + 1) ({}::nat set))" using k by simp
    with c have "lii ! k = replicate (length cn + 1) {} ! k \<union> {0 + j | j. j < length data \<and> int k \<in> set (labels (data ! j))}"
      by blast
    then show ?thesis unfolding e by simp
  qed
  then show ?thesis using a b by auto
qed

lemma py_min_Inr: "xs \<noteq> [] \<Longrightarrow> py_min xs = Inr (min_list xs)"
proof (cases xs)
  case Nil
  assume "xs \<noteq> []"
  with Nil show ?thesis by simp
next
  case (Cons y ys)
  have "fold min ys y = Min (set (y # ys))" by (rule Min.set_eq_fold[symmetric])
  also have "\<dots> = min_list (y # ys)" by (rule min_list_Min[symmetric]) simp
  finally show ?thesis using Cons by (simp add: py_min_def del: min_list.simps)
qed

lemma tl_stat:
  assumes "length lii = n + 1"
    and "\<forall>k\<le>n. lii ! k = {j. j < length data \<and> int k \<in> set (labels (data ! j))}"
  shows "tl (map card lii) = map (class_image_count data) (map int [1..<n + 1])"
proof (rule nth_equalityI)
  show "length (tl (map card lii)) = length (map (class_image_count data) (map int [1..<n + 1]))"
    using assms by simp
next
  fix i assume "i < length (tl (map card lii))"
  then have i: "i < n" using assms by simp
  then have "tl (map card lii) ! i = card (lii ! Suc i)"
    using assms by (simp add: nth_tl)
  also have "\<dots> = class_image_count data (int (Suc i))"
    using assms i by (simp add: class_image_count_card)
  finally show "tl (map card lii) ! i = map (class_image_count data) (map int [1..<n + 1]) ! i"
    using i by (simp del: upt_Suc)
qed

lemma fold_insert_nth:
  "fold (\<lambda>i acc. insert (xs ! i) acc) choice S = S \<union> (\<lambda>i. xs ! i) ` set choice"
  by (induction choice arbitrary: S) auto

lemma random_choice_ok:
  "m \<le> a \<Longrightarrow> random_choice g a m = Inr (map (\<lambda>j. g j mod a) [0..<m], \<lambda>j. g (j + m))"
  by (auto simp: random_choice_def)

lemma sample_classes_ok:
  assumes "\<forall>s\<in>set ss. finite s \<and> m \<le> card s" and "finite S"
  shows "\<exists>S' g'. sample_classes g m ss S = Inr (S', g') \<and> finite S' \<and>
     S' \<subseteq> S \<union> \<Union>(set ss) \<and> card S' \<le> card S + m * length ss"
  using assms
proof (induction ss arbitrary: g S)
  case Nil
  then show ?case by simp
next
  case (Cons s ss)
  let ?xs = "sorted_list_of_set s"
  let ?choice = "map (\<lambda>j. g j mod length ?xs) [0..<m]"
  let ?S1 = "fold (\<lambda>i acc. insert (?xs ! i) acc) ?choice S"
  from Cons.prems have s: "finite s" "m \<le> card s" by auto
  then have len: "length ?xs = card s" by simp
  have rc: "random_choice g (length ?xs) m = Inr (?choice, \<lambda>j. g (j + m))"
    using s len by (simp add: random_choice_ok)
  have S1: "?S1 = S \<union> (\<lambda>i. ?xs ! i) ` set ?choice" by (rule fold_insert_nth)
  have fin1: "finite ?S1" unfolding S1 using Cons.prems(2) by simp
  have sub1: "?S1 \<subseteq> S \<union> s"
  proof -
    have "(\<lambda>i. ?xs ! i) ` set ?choice \<subseteq> set ?xs"
    proof
      fix x assume "x \<in> (\<lambda>i. ?xs ! i) ` set ?choice"
      then obtain j where j: "j < m" "x = ?xs ! (g j mod length ?xs)" by auto
      from j(1) s(2) len have "0 < length ?xs" by simp
      then have "g j mod length ?xs < length ?xs" by simp
      then show "x \<in> set ?xs" using j(2) by simp
    qed
    then show ?thesis unfolding S1 using s(1) by auto
  qed
  have card1: "card ?S1 \<le> card S + m"
  proof -
    have "card ((\<lambda>i. ?xs ! i) ` set ?choice) \<le> card (set ?choice)"
      by (rule card_image_le) simp
    also have "\<dots> \<le> length ?choice" by (rule card_length)
    also have "\<dots> = m" by simp
    finally have "card ((\<lambda>i. ?xs ! i) ` set ?choice) \<le> m" .
    moreover have "card ?S1 \<le> card S + card ((\<lambda>i. ?xs ! i) ` set ?choice)"
      unfolding S1 by (rule card_Un_le)
    ultimately show ?thesis by linarith
  qed
  have "\<forall>s\<in>set ss. finite s \<and> m \<le> card s" using Cons.prems by simp
  from Cons.IH[OF this fin1, of "\<lambda>j. g (j + m)"] obtain S' g' where
    r: "sample_classes (\<lambda>j. g (j + m)) m ss ?S1 = Inr (S', g')" and f: "finite S'"
    and sub: "S' \<subseteq> ?S1 \<union> \<Union>(set ss)" and c: "card S' \<le> card ?S1 + m * length ss"
    by blast
  have "sample_classes g m (s # ss) S = Inr (S', g')"
    using rc r by (simp add: Let_def)
  moreover have "S' \<subseteq> S \<union> \<Union>(set (s # ss))" using sub sub1 by auto
  moreover have "card S' \<le> card S + m * length (s # ss)" using c card1 by simp
  ultimately show ?case using f by blast
qed

lemma sample_classes_zero: "sample_classes g 0 ss S = Inr (S, g)"
  by (induction ss arbitrary: g S) (simp_all add: random_choice_def Let_def)

lemma count_sample_le:
  assumes "finite S" "S \<subseteq> {..<length data}"
  shows "class_image_count (map (\<lambda>i. data ! i) (sorted_list_of_set S)) c \<le> class_image_count data c"
proof -
  let ?Q = "\<lambda>i. c \<in> set (labels (data ! i))"
  have "class_image_count (map (\<lambda>i. data ! i) (sorted_list_of_set S)) c
      = length (filter ?Q (sorted_list_of_set S))"
    by (simp add: class_image_count_def images_with_class_def filter_map comp_def)
  also have "\<dots> = card (set (filter ?Q (sorted_list_of_set S)))"
    by (rule distinct_card[symmetric]) simp
  also have "\<dots> \<le> card {j. j < length data \<and> ?Q j}"
    using assms by (intro card_mono) auto
  finally show ?thesis by (simp add: class_image_count_card)
qed

lemma balance_data_run:
  assumes cn: "class_names \<noteq> []" and voc: "labels_in_vocabulary data class_names"
  shows "\<exists>S g'. balance_data g data class_names =
           Inr (map (\<lambda>i. data ! i) (sorted_list_of_set S), min_count data class_names, g') \<and>
         finite S \<and> S \<subseteq> {..<length data} \<and>
         card S \<le> length class_names * min_count data class_names"
proof -
  let ?n = "length class_names"
  let ?m = "min_count data class_names"
  from label_image_indexes[OF voc] obtain lii where
    a: "index_images 0 data (replicate (?n + 1) {}) = Inr lii" and b: "length lii = ?n + 1"
    and c: "\<forall>k\<le>?n. lii ! k = {j. j < length data \<and> int k \<in> set (labels (data ! j))}"
    by blast
  have stat: "tl (map card lii) = map (class_image_count data) (class_labels class_names)"
    unfolding class_labels_def by (rule tl_stat[OF b c])
  have ne: "tl (map card lii) \<noteq> []" using b cn by (cases lii) auto
  have pm: "py_min (tl (map card lii)) = Inr ?m"
    using py_min_Inr[OF ne] by (simp add: stat min_count_def)
  have cls: "\<forall>s\<in>set (tl lii). finite s \<and> s \<subseteq> {..<length data} \<and> ?m \<le> card s"
  proof
    fix s assume "s \<in> set (tl lii)"
    then obtain i where i: "i < length (tl lii)" "s = tl lii ! i" by (auto simp: in_set_conv_nth)
    then have k: "Suc i \<le> ?n" and s: "s = lii ! Suc i" using b by (auto simp: nth_tl)
    from c k s have seq: "s = {j. j < length data \<and> int (Suc i) \<in> set (labels (data ! j))}" by blast
    have "card s \<in> set (map card (tl lii))"
      using \<open>s \<in> set (tl lii)\<close> by simp
    then have "card s \<in> set (tl (map card lii))" by (simp add: map_tl)
    then have "Min (set (tl (map card lii))) \<le> card s" by simp
    moreover have "?m = Min (set (tl (map card lii)))"
      unfolding min_count_def stat[symmetric] by (rule min_list_Min[OF ne])
    ultimately show "finite s \<and> s \<subseteq> {..<length data} \<and> ?m \<le> card s" using seq by auto
  qed
  then have "\<forall>s\<in>set (tl lii). finite s \<and> ?m \<le> card s" by blast
  from sample_classes_ok[OF this, of "{}" g] obtain S g' where
    sc: "sample_classes g ?m (tl lii) {} = Inr (S, g')" and fin: "finite S"
    and sub: "S \<subseteq> {} \<union> \<Union>(set (tl lii))" and card: "card S \<le> card ({}::nat set) + ?m * length (tl lii)"
    by blast
  have "balance_data g data class_names = Inr (map (\<lambda>i. data ! i) (sorted_list_of_set S), ?m, g')"
    using a pm sc by (simp add: balance_data_def)
  moreover have "S \<subseteq> {..<length data}" using sub cls by blast
  moreover have "card S \<le> ?n * ?m" using card b by (simp add: mult.commute)
  ultimately show ?thesis using fin by blast
qed

text \<open>
  Claim C1, as amended. Balancing a dataset with at least one class and all labels in
  \<open>1..N\<close> succeeds; the minimum it stores is the minimum, over the classes, of the number
  of images that contain the class; and for every class \<open>c\<close> the number of balanced
  images that contain \<open>c\<close> is at most \<open>N\<close> times that minimum, and at most the number of
  images that contained \<open>c\<close> before. (The bound by the minimum itself fails, see the
  counterexample below: the draws of all classes are united.)
\<close>

theorem balanced_class_bound:
  assumes "class_names \<noteq> []" and "labels_in_vocabulary data class_names"
  shows "\<exists>sample_data g'.
           balance_data g data class_names = Inr (sample_data, min_count data class_names, g') \<and>
           length sample_data \<le> length class_names * min_count data class_names \<and>
           (\<forall>c. class_image_count sample_data c \<le> length class_names * min_count data class_names \<and>
                class_image_count sample_data c \<le> class_image_count data c)"
proof -
  from balance_data_run[OF assms, of g] obtain S g' where
    r: "balance_data g data class_names =
          Inr (map (\<lambda>i. data ! i) (sorted_list_of_set S), min_count data class_names, g')"
    and fin: "finite S" and sub: "S \<subseteq> {..<length data}"
    and card: "card S \<le> length class_names * min_count data class_names"
    by blast
  let ?sd = "map (\<lambda>i. data ! i) (sorted_list_of_set S)"
  have len: "length ?sd = card S" using fin by simp
  have "class_image_count ?sd c \<le> length ?sd" for c
    unfolding class_image_count_def images_with_class_def by (rule length_filter_le)
  then have "class_image_count ?sd c \<le> length class_names * min_count data class_names" for c
    using card len by (metis le_trans)
  moreover have "class_image_count ?sd c \<le> class_image_count data c" for c
    by (rule count_sample_le[OF fin sub])
  ultimately show ?thesis using r card len by (metis (no_types, lifting))
qed

text \<open>The amended claim C1 at the scenario of the specification.\<close>

theorem balanced_class_bound_witness:
  "scenario_classes \<noteq> [] \<and> labels_in_vocabulary scenario_data scenario_classes \<and>
   (\<exists>sample_data g'.
      balance_data zero_rng scenario_data scenario_classes =
        Inr (sample_data, min_count scenario_data scenario_classes, g') \<and>
      length sample_data \<le> length scenario_classes * min_count scenario_data scenario_classes \<and>
      (\<forall>c. class_image_count sample_data c
             \<le> length scenario_classes * min_count scenario_data scenario_classes \<and>
           class_image_count sample_data c \<le> class_image_count scenario_data c))"
proof -
  have a: "scenario_classes \<noteq> []" by (simp add: scenario_classes_def)
  have b: "labels_in_vocabulary scenario_data scenario_classes"
    by (simp add: labels_in_vocabulary_def scenario_data_def scenario_classes_def)
  show ?thesis using a b balanced_class_bound [OF a b, of zero_rng] by blast
qed

text \<open>
  Claim C1 as stated fails. In the scenario of the specification the minimum is 1;
  classes 2 and 3 each have one image, so both images are drawn, and class 1, which has
  supporting images, is in 2 of the balanced images: more than the minimum.
\<close>

theorem balanced_class_count_counterexample:
  "balanced (balance_data zero_rng scenario_data scenario_classes) = Inr (scenario_data, 1) \<and>
   min_count scenario_data scenario_classes = 1 \<and>
   class_image_count scenario_data 1 = 2 \<and>
   \<not> class_image_count scenario_data 1 \<le> min_count scenario_data scenario_classes"
proof -
  have a: "balanced (balance_data zero_rng scenario_data scenario_classes) = Inr (scenario_data, 1)"
    by (simp add: balanced_def balance_data_def scenario_data_def scenario_classes_def zero_rng_def
        py_index_def py_min_def random_choice_def Let_def insert_commute)
  have b: "min_count scenario_data scenario_classes = 1"
    by (simp add: min_count_def class_labels_def class_image_count_def images_with_class_def
        scenario_data_def scenario_classes_def upt_rec)
  have c: "class_image_count scenario_data 1 = 2"
    by (simp add: class_image_count_def images_with_class_def scenario_data_def)
  show ?thesis using a b c by simp
qed

lemma min_list_zero: "(0::nat) \<in> set xs \<Longrightarrow> min_list xs = 0"
proof -
  assume z: "0 \<in> set xs"
  then have ne: "xs \<noteq> []" by auto
  have "Min (set xs) \<le> 0" using z by (intro Min_le) auto
  then show ?thesis using min_list_Min[OF ne] by simp
qed

text \<open>
  Claim C5. When all labels are in \<open>1..N\<close> and some class of \<open>1..N\<close> has no supporting
  image, the minimum count is 0 and balancing returns the empty list of images with
  \<^verbatim>\<open>min_image_num\<close> 0, raising nothing and drawing nothing.
\<close>

theorem empty_class_collapses:
  assumes "labels_in_vocabulary data class_names"
    and "\<exists>c\<in>set (class_labels class_names). class_image_count data c = 0"
  shows "min_count data class_names = 0 \<and> balance_data g data class_names = Inr ([], 0, g)"
proof -
  let ?n = "length class_names"
  from assms(2) have cn: "class_names \<noteq> []" by (auto simp: class_labels_def)
  from assms(2) have "0 \<in> set (map (class_image_count data) (class_labels class_names))"
    by force
  then have m: "min_count data class_names = 0"
    unfolding min_count_def by (rule min_list_zero)
  from label_image_indexes[OF assms(1)] obtain lii where
    a: "index_images 0 data (replicate (?n + 1) {}) = Inr lii" and b: "length lii = ?n + 1"
    and c: "\<forall>k\<le>?n. lii ! k = {j. j < length data \<and> int k \<in> set (labels (data ! j))}"
    by blast
  have stat: "tl (map card lii) = map (class_image_count data) (class_labels class_names)"
    unfolding class_labels_def by (rule tl_stat[OF b c])
  have ne: "tl (map card lii) \<noteq> []" using b cn by (cases lii) auto
  have pm: "py_min (tl (map card lii)) = Inr 0"
    using py_min_Inr[OF ne] m by (simp add: stat min_count_def)
  have "balance_data g data class_names = Inr ([], 0, g)"
    using a pm by (simp add: balance_data_def sample_classes_zero)
  with m show ?thesis by simp
qed

text \<open>Claim C5 at a vocabulary of two classes of which only the first has an image.\<close>

theorem empty_class_collapses_witness:
  "labels_in_vocabulary one_sided_data one_sided_classes \<and>
   (\<exists>c\<in>set (class_labels one_sided_classes). class_image_count one_sided_data c = 0) \<and>
   min_count one_sided_data one_sided_classes = 0 \<and>
   balance_data zero_rng one_sided_data one_sided_classes = Inr ([], 0, zero_rng)"
proof -
  have a: "labels_in_vocabulary one_sided_data one_sided_classes"
    by (simp add: labels_in_vocabulary_def one_sided_data_def one_sided_classes_def)
  have b: "\<exists>c\<in>set (class_labels one_sided_classes). class_image_count one_sided_data c = 0"
    by (simp add: class_labels_def class_image_count_def images_with_class_def
        one_sided_data_def one_sided_classes_def upt_rec)
  show ?thesis using a b empty_class_collapses [OF a b, of zero_rng] by simp
qed

subsection \<open>Reading images and annotations\<close>

text \<open>
  Claim C8. At every index that Python accepts for \<^verbatim>\<open>self.data\<close>, when the decoder has
  no image for the record's file (the file is missing or cannot be decoded),
  \<^verbatim>\<open>_read_image\<close> and with it \<^verbatim>\<open>__getitem__\<close> end in an exception for that sample; it is
  the \<^verbatim>\<open>AttributeError\<close> of reading \<^verbatim>\<open>shape\<close> on \<^verbatim>\<open>None\<close>.
\<close>

theorem unreadable_image_fails:
  assumes "py_index (length (ds_data self)) index = Inr k"
    and "imread (image_path (ds_root self) (ds_dataset_type self) (image_id (ds_data self ! k))) = None"
  shows "read_image imread (ds_root self) (ds_dataset_type self) (image_id (ds_data self ! k))
           = Inl AttributeError \<and>
         getitem imread self index = Inl AttributeError"
  using assms by (simp add: getitem_def read_image_def Let_def)

text \<open>Claim C8 at index 1 of the scenario's dataset, with no image readable.\<close>

theorem unreadable_image_fails_witness:
  "py_index (length (ds_data scenario_dataset)) 1 = Inr 1 \<and>
   no_images (image_path (ds_root scenario_dataset) (ds_dataset_type scenario_dataset)
                (image_id (ds_data scenario_dataset ! 1))) = None \<and>
   getitem no_images scenario_dataset 1 = Inl AttributeError"
proof -
  have a: "py_index (length (ds_data scenario_dataset)) 1 = Inr 1"
    by (simp add: scenario_dataset_def scenario_data_def py_index_def)
  have b: "no_images (image_path (ds_root scenario_dataset) (ds_dataset_type scenario_dataset)
                (image_id (ds_data scenario_dataset ! 1))) = None"
    by (simp add: no_images_def)
  show ?thesis
    using a b unreadable_image_fails [of scenario_dataset 1 1 no_images, OF a b] by simp
qed

subsection \<open>The annotation source\<close>


















section \<open>Properties of the training pass\<close>

lemma train_loop_zero:
  "rest \<noteq> [] \<Longrightarrow> train_loop step 0 epoch (Suc i) rest v = Inl ZeroDivisionError"
  by (cases rest) (simp_all add: Let_def split: prod.splits)

lemma train_loop_sums:
  assumes "d \<noteq> 0"
  shows "\<exists>v'. train_loop step d epoch i loader v = Inr v' \<and>
     epoch_loss v' = epoch_loss v + sum_list (map (\<lambda>(r, c). r + c) (batch_losses step (tv_state v) loader)) \<and>
     epoch_regression_loss v' = epoch_regression_loss v + sum_list (map fst (batch_losses step (tv_state v) loader)) \<and>
     epoch_classification_loss v' = epoch_classification_loss v + sum_list (map snd (batch_losses step (tv_state v) loader))"
proof (induction loader arbitrary: i v)
  case Nil
  then show ?case by simp
next
  case (Cons data rest)
  obtain s' r c where st: "step (tv_state v) data = (s', r, c)" by (cases "step (tv_state v) data") auto
  define v1 where "v1 = v\<lparr>tv_state := s',
                     running_loss := running_loss v + (r + c),
                     running_regression_loss := running_regression_loss v + r,
                     running_classification_loss := running_classification_loss v + c,
                     epoch_loss := epoch_loss v + (r + c),
                     epoch_regression_loss := epoch_regression_loss v + r,
                     epoch_classification_loss := epoch_classification_loss v + c,
                     epoch_steps := epoch_steps v + 1\<rparr>"
  define v2 where "v2 = v1\<lparr>tv_log := tv_log v1 @
                           [StepLog epoch i
                              (running_loss v1 / real_of_int d)
                              (running_regression_loss v1 / real_of_int d)
                              (running_classification_loss v1 / real_of_int d)],
                         running_loss := 0,
                         running_regression_loss := 0,
                         running_classification_loss := 0\<rparr>"
  have unf: "train_loop step d epoch i (data # rest) v =
     (if i \<noteq> 0 \<and> int i mod d = 0 then train_loop step d epoch (Suc i) rest v2
      else train_loop step d epoch (Suc i) rest v1)"
    using assms st by (simp add: Let_def v1_def v2_def)
  have f1: "tv_state v1 = s'" "epoch_loss v1 = epoch_loss v + (r + c)"
    "epoch_regression_loss v1 = epoch_regression_loss v + r"
    "epoch_classification_loss v1 = epoch_classification_loss v + c"
    by (simp_all add: v1_def)
  have f2: "tv_state v2 = s'" "epoch_loss v2 = epoch_loss v + (r + c)"
    "epoch_regression_loss v2 = epoch_regression_loss v + r"
    "epoch_classification_loss v2 = epoch_classification_loss v + c"
    by (simp_all add: v2_def f1)
  show ?case
  proof (cases "i \<noteq> 0 \<and> int i mod d = 0")
    case True
    from Cons.IH[of "Suc i" v2] obtain v' where
      "train_loop step d epoch (Suc i) rest v2 = Inr v'"
      "epoch_loss v' = epoch_loss v2 + sum_list (map (\<lambda>(r, c). r + c) (batch_losses step (tv_state v2) rest))"
      "epoch_regression_loss v' = epoch_regression_loss v2 + sum_list (map fst (batch_losses step (tv_state v2) rest))"
      "epoch_classification_loss v' = epoch_classification_loss v2 + sum_list (map snd (batch_losses step (tv_state v2) rest))"
      by blast
    moreover have "train_loop step d epoch i (data # rest) v = train_loop step d epoch (Suc i) rest v2"
      unfolding unf by (rule if_P[OF True])
    ultimately show ?thesis using st f2 by simp
  next
    case False
    from Cons.IH[of "Suc i" v1] obtain v' where
      "train_loop step d epoch (Suc i) rest v1 = Inr v'"
      "epoch_loss v' = epoch_loss v1 + sum_list (map (\<lambda>(r, c). r + c) (batch_losses step (tv_state v1) rest))"
      "epoch_regression_loss v' = epoch_regression_loss v1 + sum_list (map fst (batch_losses step (tv_state v1) rest))"
      "epoch_classification_loss v' = epoch_classification_loss v1 + sum_list (map snd (batch_losses step (tv_state v1) rest))"
      by blast
    moreover have "train_loop step d epoch i (data # rest) v = train_loop step d epoch (Suc i) rest v1"
      unfolding unf by (rule if_not_P[OF False])
    ultimately show ?thesis using st f1 by simp
  qed
qed

lemma train_loop_single:
  "\<exists>v'. train_loop step d epoch 0 [data] v = Inr v' \<and>
     epoch_loss v' = epoch_loss v + sum_list (map (\<lambda>(r, c). r + c) (batch_losses step (tv_state v) [data])) \<and>
     epoch_regression_loss v' = epoch_regression_loss v + sum_list (map fst (batch_losses step (tv_state v) [data])) \<and>
     epoch_classification_loss v' = epoch_classification_loss v + sum_list (map snd (batch_losses step (tv_state v) [data]))"
  by (cases "step (tv_state v) data") (simp add: Let_def)

lemma train_loop_zero_many:
  "rest \<noteq> [] \<Longrightarrow> train_loop step 0 epoch 0 (data # rest) v = Inl ZeroDivisionError"
  by (cases "step (tv_state v) data") (simp add: Let_def train_loop_zero)

text \<open>
  Claim C7. For a loader with at least one batch, what \<^verbatim>\<open>train\<close> returns is the three
  sums of the per-batch loss values divided by \<^verbatim>\<open>len(loader)\<close>, the number of batches. The
  only pass that returns nothing is the one with \<^verbatim>\<open>debug_steps\<close> 0 and more than one
  batch, which ends in \<^verbatim>\<open>ZeroDivisionError\<close> at step 1.
\<close>

theorem train_averages:
  assumes "loader \<noteq> []"
  shows "returned (train loader step s debug_steps epoch) =
     (if debug_steps = 0 \<and> 1 < length loader then Inl ZeroDivisionError
      else Inr (batch_average (batch_losses step s loader) (length loader)))"
proof (cases "debug_steps = 0 \<and> 1 < length loader")
  case True
  then obtain data rest where l: "loader = data # rest" "rest \<noteq> []"
    by (cases loader) auto
  then show ?thesis using True
    by (simp add: train_def returned_def train_loop_zero_many del: train_loop.simps)
next
  case False
  have "\<exists>v'. train_loop step debug_steps epoch 0 loader (train_init s) = Inr v' \<and>
     epoch_loss v' = epoch_loss (train_init s) + sum_list (map (\<lambda>(r, c). r + c) (batch_losses step (tv_state (train_init s)) loader)) \<and>
     epoch_regression_loss v' = epoch_regression_loss (train_init s) + sum_list (map fst (batch_losses step (tv_state (train_init s)) loader)) \<and>
     epoch_classification_loss v' = epoch_classification_loss (train_init s) + sum_list (map snd (batch_losses step (tv_state (train_init s)) loader))"
  proof (cases "debug_steps = 0")
    case True
    with False assms obtain data where l: "loader = [data]"
      by (cases loader) auto
    show ?thesis unfolding l by (rule train_loop_single)
  next
    case False
    then show ?thesis by (rule train_loop_sums)
  qed
  then obtain v' where v: "train_loop step debug_steps epoch 0 loader (train_init s) = Inr v'"
    "epoch_loss v' = sum_list (map (\<lambda>(r, c). r + c) (batch_losses step s loader))"
    "epoch_regression_loss v' = sum_list (map fst (batch_losses step s loader))"
    "epoch_classification_loss v' = sum_list (map snd (batch_losses step s loader))"
    by (auto simp: train_init_def)
  show ?thesis using False assms v
    by (simp add: train_def returned_def batch_average_def Let_def)
qed

text \<open>Claim C7 at a loader of two batches that hold three samples: the sums are
  divided by 2, not by 3.\<close>

theorem train_averages_witness:
  "two_batches \<noteq> [] \<and>
   returned (train two_batches count_step 0 10 0) = Inr (9/2, 3/2, 3) \<and>
   batch_average (batch_losses count_step 0 two_batches) (length two_batches) = (9/2, 3/2, 3)"
proof -
  have a: "two_batches \<noteq> []" by (simp add: two_batches_def)
  have b: "batch_average (batch_losses count_step 0 two_batches) (length two_batches) = (9/2, 3/2, 3)"
    by (simp add: batch_average_def two_batches_def count_step_def)
  show ?thesis using a b train_averages [OF a, of count_step 0 10 0]
    by (simp add: two_batches_def)
qed

section \<open>Properties of the start-up\<close>

lemma SGD_groups:
  fixes opt :: "'o optimizer"
  assumes "SGD (snd (choose_params a n)) l m w = Inr opt"
  shows "length (param_groups opt) =
     (if args_freeze_base_net a then 2 else if args_freeze_net a then 1 else 3)"
  using assms by (auto simp: SGD_def choose_params_def split: if_splits)

lemma group_lr_out_of_range:
  "length (param_groups opt) < 3 \<Longrightarrow> group_lr opt 2 = Inl IndexError"
  by (auto simp: group_lr_def py_index_def)

lemma read_lrs_short: "length (param_groups opt) < 3 \<Longrightarrow> read_lrs opt = Inl IndexError"
  by (simp add: read_lrs_def group_lr_out_of_range)

lemma load_state_dict_length:
  "load_state_dict opt saved = Inr opt' \<Longrightarrow> length (param_groups opt') = length (param_groups opt)"
  by (auto simp: load_state_dict_def split: if_splits)

lemma resume_optimizer_length:
  "resume_optimizer env a opt = Inr (opt', le, re) \<Longrightarrow>
   length (param_groups opt') = length (param_groups opt)"
  by (auto simp: resume_optimizer_def dest: load_state_dict_length
      split: option.splits sum.splits)


lemma parse_base_net_lr: "args_base_net_lr (parse_args c) = Some (default (1/1000) (opt_base_net_lr c))"
  by (simp add: parse_args_def)

lemma parse_extra_layers_lr: "args_extra_layers_lr (parse_args c) = opt_extra_layers_lr c"
  by (simp add: parse_args_def)

lemma base_net_lr_parsed: "base_net_lr (parse_args c) = default (1/1000) (opt_base_net_lr c)"
  by (simp add: base_net_lr_def parse_base_net_lr)

lemma extra_layers_lr_parsed:
  "extra_layers_lr (parse_args c) = default (args_lr (parse_args c)) (opt_extra_layers_lr c)"
  by (simp add: extra_layers_lr_def parse_extra_layers_lr default_def split: option.splits)


lemma SGD_Groups_ok:
  "0 \<le> l \<Longrightarrow> 0 \<le> m \<Longrightarrow> 0 \<le> w \<Longrightarrow> gs \<noteq> [] \<Longrightarrow>
   SGD (Groups gs) l m w =
     Inr \<lparr>param_groups =
           map (\<lambda>g. \<lparr>params = gs_params g, lr = default l (gs_lr g), momentum = m,
                      weight_decay = w, initial_lr = None\<rparr>) gs,
          opt_state = None\<rparr>"
  by (simp add: SGD_def)

text \<open>
  Claim C2, as amended. For arguments that come from the parser and non-negative
  defaults, in the two configurations that pass groups to the optimizer: the group of
  the extra layers is created with the rate given for it, and with the global \<^verbatim>\<open>lr\<close> when
  none was given; the group of the backbone is created with the rate given for it, and
  with the parser's default \<open>0.001\<close> when none was given; the group of the prediction
  heads is created with the global \<^verbatim>\<open>lr\<close>.
\<close>

theorem created_group_rates:
  fixes n :: "'w ssd"
  assumes "a = parse_args c" and "args_freeze_base_net a \<or> \<not> args_freeze_net a"
    and "0 \<le> args_lr a" and "0 \<le> args_momentum a" and "0 \<le> args_weight_decay a"
  shows "\<exists>opt :: 'o optimizer.
     SGD (snd (choose_params a n)) (args_lr a) (args_momentum a) (args_weight_decay a) = Inr opt \<and>
     map lr (param_groups opt) =
       (if args_freeze_base_net a
        then [default (args_lr a) (opt_extra_layers_lr c), args_lr a]
        else [default (1/1000) (opt_base_net_lr c),
              default (args_lr a) (opt_extra_layers_lr c), args_lr a])"
proof (cases "args_freeze_base_net a")
  case True
  then show ?thesis
    using assms(3-5) unfolding assms(1)
    by (simp add: choose_params_def SGD_Groups_ok extra_layers_lr_parsed default_def)
next
  case False
  with assms(2) have "\<not> args_freeze_net a" by simp
  with False show ?thesis
    using assms(3-5) unfolding assms(1)
    by (simp add: choose_params_def SGD_Groups_ok extra_layers_lr_parsed base_net_lr_parsed default_def)
qed


lemma default_args:
  "parse_args no_options =
     \<lparr>args_net = ''mb1-ssd'', args_freeze_base_net = False, args_freeze_net = False,
      args_base_net = None, args_pretrained_ssd = Some ''models/mobilenet-v1-ssd-mp-0_675.pth'',
      args_resume = None, args_lr = 1/100, args_momentum = 9/10, args_weight_decay = 5/10000,
      args_base_net_lr = Some (1/1000), args_extra_layers_lr = None, args_scheduler = ''cosine'',
      args_milestones = ''80,100'', args_t_max = 100, args_patience = 10, args_num_epochs = 30,
      args_validation_epochs = 1, args_checkpoint_epochs = 1, args_debug_steps = 10,
      args_checkpoint_folder = ''models/''\<rparr>"
  by (simp add: parse_args_def no_options_def default_def)

text \<open>The amended claim C2 at the command line without options.\<close>

theorem created_group_rates_witness:
  "(\<exists>opt :: nat optimizer.
     SGD (snd (choose_params (parse_args no_options) small_net)) (1/100) (9/10) (5/10000) = Inr opt \<and>
     map lr (param_groups opt) = [1/1000, 1/100, 1/100])"
proof -
  have a: "args_freeze_base_net (parse_args no_options) \<or> \<not> args_freeze_net (parse_args no_options)"
    by (simp add: default_args)
  have b: "0 \<le> args_lr (parse_args no_options)" "0 \<le> args_momentum (parse_args no_options)"
    "0 \<le> args_weight_decay (parse_args no_options)"
    by (simp_all add: default_args)
  have c: "opt_base_net_lr no_options = None" "opt_extra_layers_lr no_options = None"
    by (simp_all add: no_options_def)
  have d: "args_lr (parse_args no_options) = 1/100" "args_momentum (parse_args no_options) = 9/10"
    "args_weight_decay (parse_args no_options) = 5/10000" "\<not> args_freeze_base_net (parse_args no_options)"
    by (simp_all add: default_args)
  show ?thesis
    using created_group_rates [OF refl a b, of small_net, where 'o = nat] d(4)
    unfolding c d(1-3) by (simp add: default_def)
qed

text \<open>
  Claim C2 as stated fails for the backbone: with no option given the base-net rate is
  not configured and the global \<^verbatim>\<open>lr\<close> is \<open>0.01\<close>, yet the first group of the optimizer,
  the backbone's, has the rate \<open>0.001\<close>.
\<close>

theorem base_net_rate_counterexample:
  "opt_base_net_lr no_options = None \<and> args_lr (parse_args no_options) = 1/100 \<and>
   group_rates (prepare small_env (parse_args no_options) small_net) = Inr [1/1000, 1/100, 1/100]"
proof -
  have a: "opt_base_net_lr no_options = None" by (simp add: no_options_def)
  have b: "args_lr (parse_args no_options) = 1/100" by (simp add: default_args)
  have c: "group_rates (prepare small_env (parse_args no_options) small_net) = Inr [1/1000, 1/100, 1/100]"
    unfolding default_args
    by (simp add: group_rates_def prepare_def choose_params_def load_model_def given_path_def
        small_env_def small_net_def SGD_def resume_optimizer_def read_lrs_def group_lr_def
        py_index_def base_net_lr_def extra_layers_lr_def default_def parameters_def)
  show ?thesis using a b c by (intro conjI)
qed


lemma prepare_frozen:
  fixes env :: "('w, 'o, 'b) env"
  assumes "args_freeze_base_net a \<or> args_freeze_net a"
  shows "prepare env a n0 =
     (case load_model env a (fst (choose_params a n0)) of
        Inl e \<Rightarrow> Inl e
      | Inr n2 \<Rightarrow>
          (case (SGD (snd (choose_params a n0)) (args_lr a) (args_momentum a) (args_weight_decay a)
                  :: error + 'o optimizer) of
             Inl e \<Rightarrow> Inl e
           | Inr opt \<Rightarrow>
               (case resume_optimizer env a opt of
                  Inl e \<Rightarrow> Inl e
                | Inr r \<Rightarrow> Inl IndexError)))"
proof -
  obtain n1 ps where cp: "choose_params a n0 = (n1, ps)" by (cases "choose_params a n0") auto
  show ?thesis
  proof (cases "load_model env a n1")
    case (Inl e)
    then show ?thesis by (simp add: prepare_def cp)
  next
    case (Inr n2)
    note lm = this
    show ?thesis
    proof (cases "SGD ps (args_lr a) (args_momentum a) (args_weight_decay a) :: error + 'o optimizer")
      case (Inl e)
      then show ?thesis by (simp add: prepare_def cp lm)
    next
      case (Inr opt)
      note sgd = this
      have len: "length (param_groups opt) < 3"
        using SGD_groups[of a n0 "args_lr a" "args_momentum a" "args_weight_decay a" opt] sgd cp assms
        by (auto split: if_splits)
      show ?thesis
      proof (cases "resume_optimizer env a opt")
        case (Inl e)
        then show ?thesis by (simp add: prepare_def cp lm sgd)
      next
        case (Inr r)
        obtain opt' le re where r: "r = (opt', le, re)" by (cases r) auto
        have "length (param_groups opt') < 3"
          using resume_optimizer_length[of env a opt opt' le re] Inr r len by simp
        then have "read_lrs opt' = Inl IndexError" by (rule read_lrs_short)
        then show ?thesis using Inr r by (simp add: prepare_def cp lm sgd)
      qed
    qed
  qed
qed

lemma prepare_frozen_fails:
  assumes "args_freeze_base_net a \<or> args_freeze_net a"
  shows "\<exists>e. prepare env a n0 = Inl e"
  unfolding prepare_frozen[OF assms] by (auto split: sum.splits)

lemma group_reads:
  assumes "length (param_groups opt) = (if fb then 2 else if fn then 1 else 3)"
  shows "length (param_groups opt) = (if fb then 2 else if fn then 1 else 3) \<and>
    (group_lr opt 2 = Inl IndexError) = (fb \<or> fn) \<and>
    (group_lr opt 1 = Inl IndexError) = (\<not> fb \<and> fn) \<and>
    (\<exists>rates. read_lrs opt = Inr rates) = (\<not> fb \<and> \<not> fn)"
proof -
  have g: "group_lr opt i = (if i < int (length (param_groups opt)) then Inr (lr (param_groups opt ! nat i)) else Inl IndexError)"
    if "0 \<le> i" for i
    using that by (auto simp: group_lr_def py_index_def)
  show ?thesis using assms by (simp add: read_lrs_def g)
qed

text \<open>
  Claim C10. The optimizer is built with two groups under \<^verbatim>\<open>freeze_base_net\<close>, with one
  under \<^verbatim>\<open>freeze_net\<close> and with three otherwise; so the read of group 2 is out of range
  exactly under a freeze flag, the read of group 1 exactly under \<^verbatim>\<open>freeze_net\<close> alone, and
  the three reads succeed exactly without a freeze flag. Under either freeze flag the start-up
  ends in an exception, so that the run executes no epoch: the exception of loading the
  model, of building the optimizer or of resuming it if one of these raises, and
  otherwise the \<^verbatim>\<open>IndexError\<close> of reading \<^verbatim>\<open>optimizer.param_groups[2]\<close>.
\<close>

theorem freeze_startup_fails:
  fixes env :: "('w, 'o, 'b) env"
  shows "(\<forall>opt :: 'o optimizer.
            SGD (snd (choose_params a n0)) (args_lr a) (args_momentum a) (args_weight_decay a) = Inr opt \<longrightarrow>
            length (param_groups opt) =
              (if args_freeze_base_net a then 2 else if args_freeze_net a then 1 else 3) \<and>
            (group_lr opt 2 = Inl IndexError) = (args_freeze_base_net a \<or> args_freeze_net a) \<and>
            (group_lr opt 1 = Inl IndexError) = (\<not> args_freeze_base_net a \<and> args_freeze_net a) \<and>
            (\<exists>rates. read_lrs opt = Inr rates) = (\<not> args_freeze_base_net a \<and> \<not> args_freeze_net a)) \<and>
         (args_freeze_base_net a \<or> args_freeze_net a \<longrightarrow>
            prepare env a n0 =
              (case load_model env a (fst (choose_params a n0)) of
                 Inl e \<Rightarrow> Inl e
               | Inr n2 \<Rightarrow>
                   (case (SGD (snd (choose_params a n0)) (args_lr a) (args_momentum a)
                            (args_weight_decay a) :: error + 'o optimizer) of
                      Inl e \<Rightarrow> Inl e
                    | Inr opt \<Rightarrow>
                        (case resume_optimizer env a opt of
                           Inl e \<Rightarrow> Inl e
                         | Inr r \<Rightarrow> Inl IndexError))) \<and>
            (\<exists>e. prepare env a n0 = Inl e \<and> main env a n0 = ([], Some (if known_net (args_net a) then e else SystemExit))))"
proof -
  have groups: "\<forall>opt :: 'o optimizer.
      SGD (snd (choose_params a n0)) (args_lr a) (args_momentum a) (args_weight_decay a) = Inr opt \<longrightarrow>
      length (param_groups opt) =
        (if args_freeze_base_net a then 2 else if args_freeze_net a then 1 else 3) \<and>
      (group_lr opt 2 = Inl IndexError) = (args_freeze_base_net a \<or> args_freeze_net a) \<and>
      (group_lr opt 1 = Inl IndexError) = (\<not> args_freeze_base_net a \<and> args_freeze_net a) \<and>
      (\<exists>rates. read_lrs opt = Inr rates) = (\<not> args_freeze_base_net a \<and> \<not> args_freeze_net a)"
  proof (intro allI impI)
    fix opt :: "'o optimizer"
    assume "SGD (snd (choose_params a n0)) (args_lr a) (args_momentum a) (args_weight_decay a) = Inr opt"
    then have "length (param_groups opt) =
        (if args_freeze_base_net a then 2 else if args_freeze_net a then 1 else 3)"
      by (rule SGD_groups)
    then show "length (param_groups opt) =
        (if args_freeze_base_net a then 2 else if args_freeze_net a then 1 else 3) \<and>
      (group_lr opt 2 = Inl IndexError) = (args_freeze_base_net a \<or> args_freeze_net a) \<and>
      (group_lr opt 1 = Inl IndexError) = (\<not> args_freeze_base_net a \<and> args_freeze_net a) \<and>
      (\<exists>rates. read_lrs opt = Inr rates) = (\<not> args_freeze_base_net a \<and> \<not> args_freeze_net a)"
      by (rule group_reads)
  qed
  have fails: "prepare env a n0 =
        (case load_model env a (fst (choose_params a n0)) of
           Inl e \<Rightarrow> Inl e
         | Inr n2 \<Rightarrow>
             (case (SGD (snd (choose_params a n0)) (args_lr a) (args_momentum a)
                      (args_weight_decay a) :: error + 'o optimizer) of
                Inl e \<Rightarrow> Inl e
              | Inr opt \<Rightarrow>
                  (case resume_optimizer env a opt of
                     Inl e \<Rightarrow> Inl e
                   | Inr r \<Rightarrow> Inl IndexError))) \<and>
      (\<exists>e. prepare env a n0 = Inl e \<and>
           main env a n0 = ([], Some (if known_net (args_net a) then e else SystemExit)))"
    if f: "args_freeze_base_net a \<or> args_freeze_net a"
  proof -
    from prepare_frozen_fails[OF f] obtain e where e: "prepare env a n0 = Inl e" by blast
    then have "main env a n0 = ([], Some (if known_net (args_net a) then e else SystemExit))"
      by (simp add: main_def)
    with e prepare_frozen[OF f, of env n0] show ?thesis by blast
  qed
  show ?thesis using groups fails by blast
qed

lemma frozen_args:
  "parse_args frozen_options = (parse_args no_options)\<lparr>args_freeze_net := True\<rparr>"
  by (simp add: parse_args_def frozen_options_def no_options_def)

lemma frozen_base_args:
  "parse_args frozen_base_options = (parse_args no_options)\<lparr>args_freeze_base_net := True\<rparr>"
  by (simp add: parse_args_def frozen_base_options_def no_options_def)

text \<open>Claim C10 at the command lines \<^verbatim>\<open>--freeze-net\<close> and \<^verbatim>\<open>--freeze-base-net\<close>.\<close>

theorem freeze_startup_fails_witness:
  "(args_freeze_base_net (parse_args frozen_options) \<or> args_freeze_net (parse_args frozen_options)) \<and>
   prepare small_env (parse_args frozen_options) small_net = Inl IndexError \<and>
   main small_env (parse_args frozen_options) small_net = ([], Some IndexError) \<and>
   (args_freeze_base_net (parse_args frozen_base_options) \<or> args_freeze_net (parse_args frozen_base_options)) \<and>
   prepare small_env (parse_args frozen_base_options) small_net = Inl IndexError \<and>
   main small_env (parse_args frozen_base_options) small_net = ([], Some IndexError)"
proof -
  have a: "args_freeze_base_net (parse_args frozen_options) \<or> args_freeze_net (parse_args frozen_options)"
    by (simp add: frozen_args)
  have b: "args_freeze_base_net (parse_args frozen_base_options) \<or> args_freeze_net (parse_args frozen_base_options)"
    by (simp add: frozen_base_args)
  have k: "known_net (args_net (parse_args frozen_options))"
    "known_net (args_net (parse_args frozen_base_options))"
    by (simp_all add: frozen_args frozen_base_args default_args known_net_def)
  have c: "prepare small_env (parse_args frozen_options) small_net = Inl IndexError"
    using freeze_startup_fails [of "parse_args frozen_options" small_net small_env] a
    by (simp add: frozen_args default_args choose_params_def load_model_def given_path_def
        small_env_def small_net_def SGD_def resume_optimizer_def parameters_def
        freeze_net_layers_def)
  have d: "prepare small_env (parse_args frozen_base_options) small_net = Inl IndexError"
    using freeze_startup_fails [of "parse_args frozen_base_options" small_net small_env] b
    by (simp add: frozen_base_args default_args choose_params_def load_model_def given_path_def
        small_env_def small_net_def SGD_def resume_optimizer_def parameters_def
        freeze_net_layers_def)
  have e: "main small_env (parse_args frozen_options) small_net = ([], Some IndexError)"
    using c k(1) by (simp add: main_def)
  have f: "main small_env (parse_args frozen_base_options) small_net = ([], Some IndexError)"
    using d k(2) by (simp add: main_def)
  show ?thesis using a b c d e f by (intro conjI)
qed

section \<open>Properties of a resumed run and of the epoch loop\<close>

lemma load_state_dict_restores:
  assumes "load_state_dict opt saved = Inr opt'"
  shows "opt_state opt' = opt_state saved \<and>
         map group_options (param_groups opt') = map group_options (param_groups saved) \<and>
         map params (param_groups opt') = map params (param_groups opt)"
proof -
  from assms have len: "length (param_groups opt) = length (param_groups saved)"
    and eq: "opt' = \<lparr>param_groups = map (\<lambda>(g, sg). sg\<lparr>params := params g\<rparr>)
                         (zip (param_groups opt) (param_groups saved)),
                      opt_state = opt_state saved\<rparr>"
    by (auto simp: load_state_dict_def split: if_splits)
  have a: "map group_options (map (\<lambda>(g, sg). sg\<lparr>params := params g\<rparr>) (zip xs ys)) = map group_options ys"
    if "length xs = length ys" for xs ys :: "group list"
    using that by (induction xs ys rule: list_induct2) (simp_all add: group_options_def)
  have b: "map params (map (\<lambda>(g, sg). sg\<lparr>params := params g\<rparr>) (zip xs ys)) = map params xs"
    if "length xs = length ys" for xs ys :: "group list"
    using that by (induction xs ys rule: list_induct2) simp_all
  show ?thesis using a[OF len] b[OF len] by (simp add: eq)
qed

lemma prepare_resumed:
  fixes env :: "('w, 'o, 'b) env"
  assumes "given_path (args_resume a) = Some path" and "prepare env a n0 = Inr p"
  shows "\<exists>w od E. torch_load env path = Some (Checkpoint w od E) \<and>
           weights (p_net p) = w \<and>
           opt_state (p_optimizer p) = opt_state od \<and>
           map group_options (param_groups (p_optimizer p)) = map group_options (param_groups od) \<and>
           last_epoch p = E \<and> r_epoch p = E"
proof -
  obtain n1 ps where cp: "choose_params a n0 = (n1, ps)" by (cases "choose_params a n0") auto
  from assms(2) obtain n2 where lm: "load_model env a n1 = Inr n2"
    by (auto simp: prepare_def cp split: sum.splits)
  from assms(2) lm obtain opt :: "'o optimizer"
    where sgd: "SGD ps (args_lr a) (args_momentum a) (args_weight_decay a) = Inr opt"
    by (auto simp: prepare_def cp split: sum.splits)
  from assms(2) lm sgd obtain opt' le re where ro: "resume_optimizer env a opt = Inr (opt', le, re)"
    and p: "p_net p = n2" "p_optimizer p = opt'" "last_epoch p = le" "r_epoch p = re"
    by (auto simp: prepare_def cp split: sum.splits)
  from lm assms(1) have nl: "net_load (torch_load env) path n1 = Inr n2"
    by (simp add: load_model_def)
  then obtain w od E where f: "torch_load env path = Some (Checkpoint w od E)" and w: "n2 = n1\<lparr>weights := w\<rparr>"
    by (auto simp: net_load_def split: option.splits torch_file.splits if_splits)
  from ro assms(1) f have ls: "load_state_dict opt od = Inr opt'" and e: "le = E" "re = E"
    by (auto simp: resume_optimizer_def load_checkpoint_def split: sum.splits)
  from load_state_dict_restores[OF ls] show ?thesis using f w p e by auto
qed

lemma epochs_resumed:
  "last_epoch p = E \<Longrightarrow> r_epoch p = E \<Longrightarrow> epochs a p = [E + 1..E + args_num_epochs a]"
  by (simp add: epochs_def py_range_def add.commute)


lemma scheduler_calls_append:
  "scheduler_calls (xs @ ys) = scheduler_calls xs @ scheduler_calls ys"
  by (induction xs rule: scheduler_calls.induct) simp_all

lemma validate_effect:
  assumes "validate env a epoch training st = Inr (st2, v)"
  shows "\<exists>l r c row. trace st2 = trace st @ [Validated epoch l r c, row] \<and>
           scheduler_calls [row] = [] \<and> v = PyFloat l \<and>
           current_model_path st2 =
             Some \<lparr>mp_folder = args_checkpoint_folder a, mp_start_time = start_time env,
                   mp_net = args_net a, mp_epoch = epoch, mp_loss = l\<rparr> \<and>
           net st2 = net st \<and> optimizer st2 = optimizer st \<and> scheduler st2 = scheduler st"
  using assms by (auto simp: validate_def split: sum.splits prod.splits)

lemma save_checkpoint_effect:
  assumes "save_checkpoint epoch st = Inr st3"
  shows "\<exists>path. current_model_path st = Some path \<and>
           trace st3 = trace st @ [Saved path (weights (net st)) (optimizer st) epoch] \<and>
           current_model_path st3 = Some path \<and>
           net st3 = net st \<and> optimizer st3 = optimizer st \<and> scheduler st3 = scheduler st"
  using assms by (auto simp: save_checkpoint_def split: option.splits)

lemma validation_step:
  assumes "(if vd then validate env a epoch training st1 else Inr (st1, PyInt 0)) = Inr (st2, v)"
  shows "\<exists>evs. trace st2 = trace st1 @ evs \<and> scheduler_calls evs = [] \<and>
           (if vd then \<exists>l r c. Validated epoch l r c \<in> set evs \<and> v = PyFloat l else v = PyInt 0)"
proof (cases vd)
  case True
  with assms have "validate env a epoch training st1 = Inr (st2, v)" by simp
  from validate_effect[OF this] obtain l r c row where
    "trace st2 = trace st1 @ [Validated epoch l r c, row]" "scheduler_calls [row] = []" "v = PyFloat l"
    by blast
  then have "trace st2 = trace st1 @ [Validated epoch l r c, row] \<and>
      scheduler_calls [Validated epoch l r c, row] = [] \<and>
      Validated epoch l r c \<in> set [Validated epoch l r c, row] \<and> v = PyFloat l"
    by simp
  then show ?thesis using True by metis
next
  case False
  with assms show ?thesis by simp
qed

lemma checkpoint_step:
  assumes "(if cd then save_checkpoint epoch st2 else Inr st2) = Inr st3"
  shows "\<exists>evs. trace st3 = trace st2 @ evs \<and> scheduler_calls evs = []"
proof (cases cd)
  case True
  with assms have "save_checkpoint epoch st2 = Inr st3" by simp
  from save_checkpoint_effect[OF this] obtain path where
    "trace st3 = trace st2 @ [Saved path (weights (net st2)) (optimizer st2) epoch]" by blast
  moreover have "scheduler_calls [Saved path (weights (net st2)) (optimizer st2) epoch] = []" by simp
  ultimately show ?thesis by blast
next
  case False
  with assms show ?thesis by simp
qed


lemma epoch_body_trace:
  assumes "epoch_body env a epoch st = (st', err)"
  shows "\<exists>evs. trace st' = trace st @ evs \<and>
     (evs = [] \<or>
      (\<exists>net1 opt1 lg l r c rest.
         train (train_loader env epoch) (train_batch env) (net st, optimizer st)
           (args_debug_steps a) epoch = Inr ((net1, opt1), lg, l, r, c) \<and>
         evs = Trained epoch l r c # rest)) \<and>
     (case err of
        Some e \<Rightarrow> scheduler_calls evs = []
      | None \<Rightarrow>
          (\<exists>v. scheduler_calls evs = [v] \<and> last evs = SchedulerStep v \<and> v \<noteq> PyNone \<and>
             (validation_due a epoch = Inr False \<longrightarrow> v = PyInt 0) \<and>
             (validation_due a epoch = Inr True \<longrightarrow>
                (\<exists>l r c. Validated epoch l r c \<in> set evs \<and> v = PyFloat l))))"
proof (cases "train (train_loader env epoch) (train_batch env) (net st, optimizer st)
                (args_debug_steps a) epoch")
  case (Inl e)
  with assms have "st' = st" "err = Some e" by (simp_all add: epoch_body_def)
  then show ?thesis by simp
next
  case (Inr res)
  obtain net1 opt1 lg training where res: "res = ((net1, opt1), lg, training)"
    by (cases res) auto
  define ev1 :: "('a, 'b) event"
    where "ev1 = Trained epoch (fst training) (fst (snd training)) (snd (snd training))"
  define st1 where "st1 = st\<lparr>net := net1, optimizer := opt1, trace := trace st @ [ev1]\<rparr>"
  have t1: "trace st1 = trace st @ [ev1]" by (simp add: st1_def)
  have c1: "scheduler_calls [ev1] = []" by (simp add: ev1_def)
  have tr: "train (train_loader env epoch) (train_batch env) (net st, optimizer st)
      (args_debug_steps a) epoch =
        Inr ((net1, opt1), lg, fst training, fst (snd training), snd (snd training))"
    by (simp add: Inr res)
  have h: "\<exists>net1 opt1 lg l r c rest'.
      train (train_loader env epoch) (train_batch env) (net st, optimizer st)
        (args_debug_steps a) epoch = Inr ((net1, opt1), lg, l, r, c) \<and>
      ev1 # rest = Trained epoch l r c # rest'" for rest
    unfolding ev1_def using tr by blast
  have body: "epoch_body env a epoch st =
      (case validation_due a epoch of
         Inl e \<Rightarrow> (st1, Some e)
       | Inr vd \<Rightarrow>
           (case (if vd then validate env a epoch training st1 else Inr (st1, PyInt 0)) of
              Inl e \<Rightarrow> (st1, Some e)
            | Inr (st2, val_loss') \<Rightarrow>
                (case checkpoint_due a epoch of
                   Inl e \<Rightarrow> (st2, Some e)
                 | Inr cd \<Rightarrow>
                     (case (if cd then save_checkpoint epoch st2 else Inr st2) of
                        Inl e \<Rightarrow> (st2, Some e)
                      | Inr st3 \<Rightarrow>
                          (case scheduler_step env (scheduler st3) val_loss' (optimizer st3) of
                             (sched, opt) \<Rightarrow>
                               (st3\<lparr>scheduler := sched, optimizer := opt,
                                    trace := trace st3 @ [SchedulerStep val_loss']\<rparr>,
                                None))))))"
    unfolding st1_def ev1_def by (simp add: epoch_body_def Inr res Let_def)
  show ?thesis
  proof (cases "validation_due a epoch")
    case (Inl e)
    with assms body have "st' = st1" "err = Some e" by simp_all
    then show ?thesis using t1 c1 h[of "[]"] by simp
  next
    case (Inr vd)
    note vd = this
    show ?thesis
    proof (cases "if vd then validate env a epoch training st1 else Inr (st1, PyInt 0)")
      case (Inl e)
      with assms body vd have "st' = st1" "err = Some e" by simp_all
      then show ?thesis using t1 c1 h[of "[]"] by simp
    next
      case (Inr r2)
      obtain st2 v where r2: "r2 = (st2, v)" by (cases r2) auto
      note val = Inr[unfolded r2]
      from validation_step[OF val] obtain evs2 where
        t2: "trace st2 = trace st1 @ evs2" and c2: "scheduler_calls evs2 = []"
        and v: "if vd then \<exists>l r c. Validated epoch l r c \<in> set evs2 \<and> v = PyFloat l else v = PyInt 0"
        by blast
      show ?thesis
      proof (cases "checkpoint_due a epoch")
        case (Inl e)
        with assms body vd val have "st' = st2" "err = Some e" by simp_all
        moreover have "scheduler_calls (ev1 # evs2) = []" using c2 by (simp add: ev1_def)
        ultimately show ?thesis using t1 t2 h[of evs2] by auto
      next
        case (Inr cd)
        note cd = this
        show ?thesis
        proof (cases "if cd then save_checkpoint epoch st2 else Inr st2")
          case (Inl e)
          with assms body vd val cd have "st' = st2" "err = Some e" by simp_all
          moreover have "scheduler_calls (ev1 # evs2) = []" using c2 by (simp add: ev1_def)
          ultimately show ?thesis using t1 t2 h[of evs2] by auto
        next
          case (Inr st3)
          note sv = this
          from checkpoint_step[OF sv] obtain evs3 where
            t3: "trace st3 = trace st2 @ evs3" and c3: "scheduler_calls evs3 = []"
            by blast
          obtain sched opt where ss: "scheduler_step env (scheduler st3) v (optimizer st3) = (sched, opt)"
            by (cases "scheduler_step env (scheduler st3) v (optimizer st3)") auto
          from assms body vd val cd sv ss have
            st': "st' = st3\<lparr>scheduler := sched, optimizer := opt,
                              trace := trace st3 @ [SchedulerStep v]\<rparr>"
            and err: "err = None"
            by simp_all
          let ?evs = "ev1 # evs2 @ evs3 @ [SchedulerStep v]"
          have a1: "trace st' = trace st @ ?evs" by (simp add: st' t1 t2 t3)
          have a2: "scheduler_calls ?evs = [v]"
            using c2 c3 by (simp add: ev1_def scheduler_calls_append)
          have a3: "last ?evs = SchedulerStep v" by simp
          have a4: "v \<noteq> PyNone" using v by (auto split: if_splits)
          have a5: "validation_due a epoch = Inr False \<longrightarrow> v = PyInt 0"
            using v vd by auto
          have a6: "validation_due a epoch = Inr True \<longrightarrow>
              (\<exists>l r c. Validated epoch l r c \<in> set ?evs \<and> v = PyFloat l)"
          proof
            assume "validation_due a epoch = Inr True"
            with vd v obtain l r c where "Validated epoch l r c \<in> set evs2" "v = PyFloat l"
              by auto
            then have "Validated epoch l r c \<in> set ?evs \<and> v = PyFloat l" by simp
            then show "\<exists>l r c. Validated epoch l r c \<in> set ?evs \<and> v = PyFloat l" by blast
          qed
          have a7: "\<exists>net1 opt1 lg l r c rest.
              train (train_loader env epoch) (train_batch env) (net st, optimizer st)
                (args_debug_steps a) epoch = Inr ((net1, opt1), lg, l, r, c) \<and>
              ?evs = Trained epoch l r c # rest"
            by (rule h)
          show ?thesis
            unfolding err option.case
            using a1 a2 a3 a4 a5 a6 a7 by blast
        qed
      qed
    qed
  qed
qed








lemma epoch_loop_trace:
  assumes "epoch_loop env a es st = (st', err)"
  shows "\<exists>evs. trace st' = trace st @ evs \<and>
     (evs = [] \<or>
      (\<exists>net1 opt1 lg l r c rest. es \<noteq> [] \<and>
         train (train_loader env (hd es)) (train_batch env) (net st, optimizer st)
           (args_debug_steps a) (hd es) = Inr ((net1, opt1), lg, l, r, c) \<and>
         evs = Trained (hd es) l r c # rest))"
  using assms
proof (induction es arbitrary: st)
  case Nil
  then show ?case by simp
next
  case (Cons epoch es)
  obtain st1 err1 where b: "epoch_body env a epoch st = (st1, err1)"
    by (cases "epoch_body env a epoch st") auto
  from epoch_body_trace[OF b] obtain evs1 where
    t1: "trace st1 = trace st @ evs1"
    and h1: "evs1 = [] \<or>
      (\<exists>net1 opt1 lg l r c rest.
         train (train_loader env epoch) (train_batch env) (net st, optimizer st)
           (args_debug_steps a) epoch = Inr ((net1, opt1), lg, l, r, c) \<and>
         evs1 = Trained epoch l r c # rest)"
    and c1: "case err1 of Some e \<Rightarrow> scheduler_calls evs1 = []
             | None \<Rightarrow> (\<exists>v. scheduler_calls evs1 = [v] \<and> last evs1 = SchedulerStep v \<and> v \<noteq> PyNone \<and>
                 (validation_due a epoch = Inr False \<longrightarrow> v = PyInt 0) \<and>
                 (validation_due a epoch = Inr True \<longrightarrow>
                    (\<exists>l r c. Validated epoch l r c \<in> set evs1 \<and> v = PyFloat l)))"
    by blast
  show ?case
  proof (cases err1)
    case (Some e)
    with Cons.prems b have "st' = st1" by simp
    then show ?thesis using t1 h1 by auto
  next
    case None
    with Cons.prems b have "epoch_loop env a es st1 = (st', err)" by simp
    from Cons.IH[OF this] obtain evs2 where t2: "trace st' = trace st1 @ evs2" by blast
    from c1 None have "evs1 \<noteq> []" by auto
    with h1 obtain net1 opt1 lg l r c rest where
      tr: "train (train_loader env epoch) (train_batch env) (net st, optimizer st)
             (args_debug_steps a) epoch = Inr ((net1, opt1), lg, l, r, c)"
      and e1: "evs1 = Trained epoch l r c # rest"
      by blast
    have "trace st' = trace st @ (Trained epoch l r c # rest @ evs2)"
      using t1 t2 e1 by simp
    then show ?thesis using tr by auto
  qed
qed

lemma main_first_epoch:
  assumes "prepare env a n0 = Inr p"
  shows "fst (main env a n0) = [] \<or>
     (\<exists>sched opt net1 opt1 lg l r c rest.
        make_scheduler env a (last_epoch p) (p_optimizer p) = Inr (sched, opt) \<and>
        epochs a p \<noteq> [] \<and>
        train (train_loader env (hd (epochs a p))) (train_batch env) (p_net p, opt)
          (args_debug_steps a) (hd (epochs a p)) = Inr ((net1, opt1), lg, l, r, c) \<and>
        fst (main env a n0) = Trained (hd (epochs a p)) l r c # rest)"
proof (cases "known_net (args_net a)")
  case False
  then show ?thesis by (simp add: main_def)
next
  case True
  show ?thesis
  proof (cases "make_scheduler env a (last_epoch p) (p_optimizer p)")
    case (Inl e)
    then show ?thesis using True assms by (simp add: main_def)
  next
    case (Inr r)
    obtain sched opt where r: "r = (sched, opt)" by (cases r) auto
    define st0 :: "('a, 'b) run" where "st0 = \<lparr>net = p_net p, optimizer = opt, scheduler = sched,
                           current_model_path = None, trace = []\<rparr>"
    obtain st' err where l: "epoch_loop env a (epochs a p) st0 = (st', err)"
      by (cases "epoch_loop env a (epochs a p) st0") auto
    have m: "fst (main env a n0) = trace st'"
      using True assms Inr r l by (simp add: main_def st0_def)
    have s0: "net st0 = p_net p" "optimizer st0 = opt" "trace st0 = []"
      by (simp_all add: st0_def)
    from epoch_loop_trace[OF l] obtain evs where
      "trace st' = trace st0 @ evs"
      "evs = [] \<or>
       (\<exists>net1 opt1 lg l r c rest. epochs a p \<noteq> [] \<and>
          train (train_loader env (hd (epochs a p))) (train_batch env) (net st0, optimizer st0)
            (args_debug_steps a) (hd (epochs a p)) = Inr ((net1, opt1), lg, l, r, c) \<and>
          evs = Trained (hd (epochs a p)) l r c # rest)"
      by blast
    then show ?thesis unfolding m s0 using Inr[unfolded r] by auto
  qed
qed

lemma prepare_resumed_net:
  fixes env :: "('w, 'o, 'b) env"
  assumes "given_path (args_resume a) = Some path" and "prepare env a n0 = Inr p"
  shows "net_load (torch_load env) path (fst (choose_params a n0)) = Inr (p_net p)"
proof -
  obtain n1 ps where cp: "choose_params a n0 = (n1, ps)" by (cases "choose_params a n0") auto
  from assms(2) obtain n2 where lm: "load_model env a n1 = Inr n2" and p: "p_net p = n2"
    by (auto simp: prepare_def cp split: sum.splits)
  from lm assms(1) show ?thesis by (simp add: load_model_def cp p)
qed

text \<open>
  Claim C3. When a resume path is given and the start-up succeeds, the file at that path
  is a checkpoint, and the network is the one \<^verbatim>\<open>net.load\<close> makes of that file, with the
  checkpoint's weights; the state and the group options of the optimizer and the epoch
  counter \<open>E\<close> are those of the same checkpoint; the loop runs over the epochs
  \<open>E + 1, \<dots>, E + num_epochs\<close>; and the first call of \<^verbatim>\<open>train\<close> that returns in the run is
  for epoch \<open>E + 1\<close>, on the restored network and the restored optimizer as the scheduler's
  constructor left it: the run's first entry holds the losses of that call.
\<close>

theorem resume_first_epoch:
  fixes env :: "('w, 'o, 'b) env"
  assumes "given_path (args_resume a) = Some path" and "prepare env a n0 = Inr p"
  shows "\<exists>w od E. torch_load env path = Some (Checkpoint w od E) \<and>
           net_load (torch_load env) path (fst (choose_params a n0)) = Inr (p_net p) \<and>
           weights (p_net p) = w \<and>
           opt_state (p_optimizer p) = opt_state od \<and>
           map group_options (param_groups (p_optimizer p)) = map group_options (param_groups od) \<and>
           last_epoch p = E \<and> r_epoch p = E \<and>
           epochs a p = [E + 1..E + args_num_epochs a] \<and>
           (fst (main env a n0) = [] \<or>
            (\<exists>sched opt net1 opt1 lg l r c rest.
               make_scheduler env a E (p_optimizer p) = Inr (sched, opt) \<and>
               train (train_loader env (E + 1)) (train_batch env) (p_net p, opt)
                 (args_debug_steps a) (E + 1) = Inr ((net1, opt1), lg, l, r, c) \<and>
               fst (main env a n0) = Trained (E + 1) l r c # rest \<and>
               first_epoch_run (fst (main env a n0)) = Some (E + 1)))"
proof -
  from prepare_resumed[OF assms] obtain w od E where
    r: "torch_load env path = Some (Checkpoint w od E)" "weights (p_net p) = w"
       "opt_state (p_optimizer p) = opt_state od"
       "map group_options (param_groups (p_optimizer p)) = map group_options (param_groups od)"
       "last_epoch p = E" "r_epoch p = E"
    by blast
  note nl = prepare_resumed_net[OF assms]
  have e: "epochs a p = [E + 1..E + args_num_epochs a]"
    by (rule epochs_resumed[OF r(5) r(6)])
  have "fst (main env a n0) = [] \<or>
      (\<exists>sched opt net1 opt1 lg l r c rest.
         make_scheduler env a E (p_optimizer p) = Inr (sched, opt) \<and>
         train (train_loader env (E + 1)) (train_batch env) (p_net p, opt)
           (args_debug_steps a) (E + 1) = Inr ((net1, opt1), lg, l, r, c) \<and>
         fst (main env a n0) = Trained (E + 1) l r c # rest \<and>
         first_epoch_run (fst (main env a n0)) = Some (E + 1))"
  proof -
    from main_first_epoch[OF assms(2)] consider "fst (main env a n0) = []"
      | sched opt net1 opt1 lg l r' c rest where
        "make_scheduler env a (last_epoch p) (p_optimizer p) = Inr (sched, opt)"
        "epochs a p \<noteq> []"
        "train (train_loader env (hd (epochs a p))) (train_batch env) (p_net p, opt)
           (args_debug_steps a) (hd (epochs a p)) = Inr ((net1, opt1), lg, l, r', c)"
        "fst (main env a n0) = Trained (hd (epochs a p)) l r' c # rest"
      by blast
    then show ?thesis
    proof cases
      case 1
      then show ?thesis by simp
    next
      case 2
      from 2(2) e have "E + 1 \<le> E + args_num_epochs a" by (auto simp: upto.simps split: if_splits)
      then have "hd [E + 1..E + args_num_epochs a] = E + 1" by (simp add: upto.simps)
      then have h: "hd (epochs a p) = E + 1" using e by simp
      have "first_epoch_run (fst (main env a n0)) = Some (E + 1)"
        using 2(4) h by (simp add: first_epoch_run_def)
      then show ?thesis using 2(1,3,4) unfolding h r(5) by blast
    qed
  qed
  with r e nl show ?thesis by blast
qed

subsection \<open>Concrete runs\<close>

lemma resume_args:
  "parse_args resume_options =
     (parse_args no_options)\<lparr>args_resume := Some ''ckpt.pth'', args_num_epochs := 1\<rparr>"
  by (simp add: parse_args_def resume_options_def no_options_def default_def)

lemma stale_args:
  "parse_args stale_options =
     (parse_args no_options)\<lparr>args_validation_epochs := 2, args_checkpoint_epochs := 1,
        args_num_epochs := 1, args_scheduler := ''reduce-on-plateau''\<rparr>"
  by (simp add: parse_args_def stale_options_def no_options_def default_def)

lemma prepare_resume_example:
  "prepare small_env (parse_args resume_options) small_net =
     Inr \<lparr>p_net = small_net\<lparr>weights := 7\<rparr>, p_optimizer = saved_optimizer,
          last_epoch = 5, r_epoch = 5, logged_lrs = (1/8, 1/2, 1/4)\<rparr>"
  unfolding resume_args default_args
  by (simp add: prepare_def choose_params_def load_model_def given_path_def net_load_def
      small_env_def small_net_def SGD_def resume_optimizer_def load_checkpoint_def
      load_state_dict_def saved_optimizer_def read_lrs_def group_lr_def
      py_index_def base_net_lr_def extra_layers_lr_def default_def parameters_def)

lemma train_small:
  "train (train_loader small_env epoch) (train_batch small_env) (n, opt) 10 epoch =
     Inr ((n\<lparr>weights := weights n + 2\<rparr>, opt), [EpochLog epoch 3 1 2], 3, 1, 2)"
  by (simp add: train_def train_init_def small_env_def Let_def)

lemma test_small:
  "test (val_loader small_env) (eval_batch small_env) n = Inr (real (weights n) + 1, real (weights n), 1)"
  by (simp add: test_def small_env_def)


lemma small_env_fields:
  "scheduler_step small_env = (\<lambda>s v opt. (s, opt))"
  "scheduler_init small_env = (\<lambda>s opt. opt)"
  "start_time small_env = ''2020-01-01_0000.00''"
  by (simp_all add: small_env_def)

lemma main_resume_example:
  "fst (main small_env (parse_args resume_options) small_net) =
     [Trained 6 3 1 2, Validated 6 10 9 1, ReportRow 6 (Some (1/2)) 3 1 2 10 9 1,
      Saved \<lparr>mp_folder = ''models/'', mp_start_time = ''2020-01-01_0000.00'',
             mp_net = ''mb1-ssd'', mp_epoch = 6, mp_loss = 10\<rparr> 9 saved_optimizer 6,
      SchedulerStep (PyFloat 10)]"
  unfolding main_def prepare_resume_example
  unfolding resume_args default_args
  by (simp add: known_net_def make_scheduler_def with_initial_lr_def saved_optimizer_def
      epochs_def py_range_def epoch_body_def train_small test_small small_env_fields
      validation_due_def checkpoint_due_def validate_def save_checkpoint_def
      get_current_lr_def small_net_def Let_def)

lemma fresh_optimizer:
  "SGD (snd (choose_params (parse_args no_options) small_net)) (1/100) (9/10) (5/10000) =
     Inr (\<lparr>param_groups =
            [\<lparr>params = [(Base_net, 0)], lr = 1/1000, momentum = 9/10, weight_decay = 5/10000,
              initial_lr = None\<rparr>,
             \<lparr>params = [(Source_layer_add_ons, 0), (Extras, 0)], lr = 1/100, momentum = 9/10,
              weight_decay = 5/10000, initial_lr = None\<rparr>,
             \<lparr>params = [(Regression_headers, 0), (Classification_headers, 0)], lr = 1/100,
              momentum = 9/10, weight_decay = 5/10000, initial_lr = None\<rparr>],
          opt_state = None\<rparr> :: nat optimizer)"
  unfolding default_args
  by (simp add: choose_params_def SGD_def base_net_lr_def extra_layers_lr_def default_def
      parameters_def small_net_def)

text \<open>
  Claim C6 fails on the code. With validation every second epoch and a checkpoint every
  epoch, a fresh run of the epochs 0 and 1 saves twice under the name made at epoch 0:
  the second call passes the weights and the number of epoch 1 with the path that
  carries \<open>Epoch-0\<close> and the validation loss of epoch 0.
\<close>

theorem stale_checkpoint_name:
  "saves (fst (main small_env (parse_args stale_options) small_net)) =
     [(\<lparr>mp_folder = ''models/'', mp_start_time = ''2020-01-01_0000.00'',
        mp_net = ''mb1-ssd'', mp_epoch = 0, mp_loss = 3\<rparr>, 2, 0),
      (\<lparr>mp_folder = ''models/'', mp_start_time = ''2020-01-01_0000.00'',
        mp_net = ''mb1-ssd'', mp_epoch = 0, mp_loss = 3\<rparr>, 4, 1)]"
proof -
  have p: "prepare small_env (parse_args stale_options) small_net =
     Inr \<lparr>p_net = small_net,
          p_optimizer =
            \<lparr>param_groups =
               [\<lparr>params = [(Base_net, 0)], lr = 1/1000, momentum = 9/10, weight_decay = 5/10000,
                 initial_lr = None\<rparr>,
                \<lparr>params = [(Source_layer_add_ons, 0), (Extras, 0)], lr = 1/100, momentum = 9/10,
                 weight_decay = 5/10000, initial_lr = None\<rparr>,
                \<lparr>params = [(Regression_headers, 0), (Classification_headers, 0)], lr = 1/100,
                 momentum = 9/10, weight_decay = 5/10000, initial_lr = None\<rparr>],
             opt_state = None\<rparr>,
          last_epoch = - 1, r_epoch = 0, logged_lrs = (1/100, 1/1000, 1/100)\<rparr>"
    unfolding stale_args default_args
    by (simp add: prepare_def choose_params_def load_model_def given_path_def
        small_env_def small_net_def SGD_def resume_optimizer_def read_lrs_def group_lr_def
        py_index_def base_net_lr_def extra_layers_lr_def default_def parameters_def)
  show ?thesis
    unfolding main_def p
    unfolding stale_args default_args
    by (simp add: known_net_def make_scheduler_def
        epochs_def py_range_def epoch_body_def train_small test_small small_env_fields
        validation_due_def checkpoint_due_def validate_def save_checkpoint_def
        get_current_lr_def small_net_def Let_def upto.simps)
qed



text \<open>Claim C3 at a resume from a checkpoint of epoch 5 with the weights 7: the first
  epoch is 6, and the run trains the restored network: after the two batches of epoch 6,
  each adding 1, the weights validated and saved are 9.\<close>

theorem resume_first_epoch_witness:
  "given_path (args_resume (parse_args resume_options)) = Some ''ckpt.pth'' \<and>
   (\<exists>p. prepare small_env (parse_args resume_options) small_net = Inr p \<and>
        p_net p = small_net\<lparr>weights := 7\<rparr> \<and> opt_state (p_optimizer p) = Some 42 \<and>
        last_epoch p = 5 \<and> r_epoch p = 5 \<and>
        epochs (parse_args resume_options) p = [6..6] \<and>
        train (train_loader small_env 6) (train_batch small_env) (p_net p, p_optimizer p) 10 6 =
          Inr ((small_net\<lparr>weights := 9\<rparr>, p_optimizer p), [EpochLog 6 3 1 2], 3, 1, 2) \<and>
        first_epoch_run (fst (main small_env (parse_args resume_options) small_net)) = Some 6) \<and>
   fst (main small_env (parse_args resume_options) small_net) =
     [Trained 6 3 1 2, Validated 6 10 9 1, ReportRow 6 (Some (1/2)) 3 1 2 10 9 1,
      Saved \<lparr>mp_folder = ''models/'', mp_start_time = ''2020-01-01_0000.00'',
             mp_net = ''mb1-ssd'', mp_epoch = 6, mp_loss = 10\<rparr> 9 saved_optimizer 6,
      SchedulerStep (PyFloat 10)]"
proof -
  let ?a = "parse_args resume_options"
  let ?p = "\<lparr>p_net = small_net\<lparr>weights := 7\<rparr>, p_optimizer = saved_optimizer,
             last_epoch = 5, r_epoch = 5, logged_lrs = (1/8, 1/2, 1/4)\<rparr> :: (nat, nat) prepared"
  have a: "given_path (args_resume ?a) = Some ''ckpt.pth''"
    by (simp add: resume_args default_args given_path_def)
  have b: "prepare small_env ?a small_net = Inr ?p" by (rule prepare_resume_example)
  have f: "torch_load small_env ''ckpt.pth'' = Some (Checkpoint 7 saved_optimizer 5)"
    by (simp add: small_env_def)
  have n: "args_num_epochs ?a = 1" by (simp add: resume_args)
  have m: "fst (main small_env ?a small_net) \<noteq> []" by (simp add: main_resume_example)
  have t: "train (train_loader small_env 6) (train_batch small_env) (p_net ?p, p_optimizer ?p) 10 6 =
      Inr ((small_net\<lparr>weights := 9\<rparr>, p_optimizer ?p), [EpochLog 6 3 1 2], 3, 1, 2)"
    by (simp add: train_small small_net_def)
  from resume_first_epoch [OF a b] obtain w od E where
    r: "torch_load small_env ''ckpt.pth'' = Some (Checkpoint w od E)"
       "weights (p_net ?p) = w" "opt_state (p_optimizer ?p) = opt_state od"
       "last_epoch ?p = E" "r_epoch ?p = E"
       "epochs ?a ?p = [E + 1..E + args_num_epochs ?a]"
       "fst (main small_env ?a small_net) = [] \<or>
        (\<exists>sched opt net1 opt1 lg l r c rest.
           make_scheduler small_env ?a E (p_optimizer ?p) = Inr (sched, opt) \<and>
           train (train_loader small_env (E + 1)) (train_batch small_env) (p_net ?p, opt)
             (args_debug_steps ?a) (E + 1) = Inr ((net1, opt1), lg, l, r, c) \<and>
           fst (main small_env ?a small_net) = Trained (E + 1) l r c # rest \<and>
           first_epoch_run (fst (main small_env ?a small_net)) = Some (E + 1))"
    by blast
  from r(1) f have e: "w = 7" "od = saved_optimizer" "E = 5" by simp_all
  from r(7) m have "first_epoch_run (fst (main small_env ?a small_net)) = Some (E + 1)"
    by blast
  then have "first_epoch_run (fst (main small_env ?a small_net)) = Some 6"
    unfolding e by simp
  moreover have "opt_state (p_optimizer ?p) = Some 42 \<and> last_epoch ?p = 5 \<and> r_epoch ?p = 5 \<and>
      epochs ?a ?p = [6..6]"
    using r(3-6) unfolding e n by (simp add: saved_optimizer_def)
  ultimately have "p_net ?p = small_net\<lparr>weights := 7\<rparr> \<and> opt_state (p_optimizer ?p) = Some 42 \<and>
      last_epoch ?p = 5 \<and> r_epoch ?p = 5 \<and> epochs ?a ?p = [6..6] \<and>
      train (train_loader small_env 6) (train_batch small_env) (p_net ?p, p_optimizer ?p) 10 6 =
        Inr ((small_net\<lparr>weights := 9\<rparr>, p_optimizer ?p), [EpochLog 6 3 1 2], 3, 1, 2) \<and>
      first_epoch_run (fst (main small_env ?a small_net)) = Some 6"
    using t by simp
  with a b main_resume_example show ?thesis by blast
qed








end
